theory Spec2Isabelle
  imports Complex_Main
begin

section \<open>JavaScript values used by the classifier\<close>

text \<open>
  A JavaScript number is \<open>NaN\<close>, an infinity or a finite value. Finite values are exact
  rationals here: the rounding of double and float32 arithmetic is not modelled, and
  the two signed zeros are one value (they are equal for \<open>===\<close>, \<open><\<close> and
  \<open>Math.max\<close>'s result is only ever compared with \<open>===\<close>).
\<close>

datatype number = NaN | NegInf | Fin rat | PosInf

text \<open>\<open>a < b\<close> on numbers: false as soon as one side is \<open>NaN\<close>.\<close>

fun num_lt :: "number \<Rightarrow> number \<Rightarrow> bool" where
  "num_lt NaN b = False"
| "num_lt a NaN = False"
| "num_lt NegInf NegInf = False"
| "num_lt NegInf b = True"
| "num_lt (Fin x) NegInf = False"
| "num_lt (Fin x) (Fin y) = (x < y)"
| "num_lt (Fin x) PosInf = True"
| "num_lt PosInf b = False"

text \<open>\<open>a === b\<close> on numbers: \<open>NaN\<close> is equal to nothing, itself included.\<close>

definition strict_eq :: "number \<Rightarrow> number \<Rightarrow> bool" where
  "strict_eq a b = (a \<noteq> NaN \<and> a = b)"

text \<open>\<open>a - b\<close>.\<close>

fun num_sub :: "number \<Rightarrow> number \<Rightarrow> number" where
  "num_sub NaN b = NaN"
| "num_sub a NaN = NaN"
| "num_sub (Fin x) (Fin y) = Fin (x - y)"
| "num_sub (Fin x) PosInf = NegInf"
| "num_sub (Fin x) NegInf = PosInf"
| "num_sub PosInf PosInf = NaN"
| "num_sub PosInf b = PosInf"
| "num_sub NegInf NegInf = NaN"
| "num_sub NegInf b = NegInf"

text \<open>\<open>a * b\<close>.\<close>

definition inf_times :: "bool \<Rightarrow> rat \<Rightarrow> number" where
  "inf_times positive y =
     (if y = 0 then NaN else if (0 < y) = positive then PosInf else NegInf)"

fun num_mul :: "number \<Rightarrow> number \<Rightarrow> number" where
  "num_mul NaN b = NaN"
| "num_mul a NaN = NaN"
| "num_mul (Fin x) (Fin y) = Fin (x * y)"
| "num_mul (Fin x) PosInf = inf_times True x"
| "num_mul (Fin x) NegInf = inf_times False x"
| "num_mul PosInf (Fin y) = inf_times True y"
| "num_mul NegInf (Fin y) = inf_times False y"
| "num_mul PosInf PosInf = PosInf"
| "num_mul NegInf NegInf = PosInf"
| "num_mul PosInf NegInf = NegInf"
| "num_mul NegInf PosInf = NegInf"

text \<open>\<open>a / b\<close> for a finite non-zero divisor, the only kind the code divides by.\<close>

fun num_div :: "number \<Rightarrow> rat \<Rightarrow> number" where
  "num_div NaN y = NaN"
| "num_div (Fin x) y = (if y = 0 then NaN else Fin (x / y))"
| "num_div PosInf y = inf_times True y"
| "num_div NegInf y = inf_times False y"

text \<open>
  A value read from an array slot or an object field: \<open>None\<close> is \<open>undefined\<close>.
  In arithmetic \<open>undefined\<close> converts to \<open>NaN\<close>.
\<close>

definition to_number :: "number option \<Rightarrow> number" where
  "to_number v = (case v of None \<Rightarrow> NaN | Some n \<Rightarrow> n)"

text \<open>\<open>xs[i]\<close>: \<open>undefined\<close> outside the array, also for a negative index.\<close>

definition elem_at :: "'a list \<Rightarrow> int \<Rightarrow> 'a option" where
  "elem_at xs i = (if 0 \<le> i \<and> i < int (length xs) then Some (xs ! nat i) else None)"

text \<open>
  \<open>Math.max(...xs)\<close>: \<open>NaN\<close> when an argument is \<open>NaN\<close>, otherwise the greatest
  argument, starting from \<open>-Infinity\<close> (the result for no argument).
\<close>

definition Math_max :: "number list \<Rightarrow> number" where
  "Math_max xs =
     (if NaN \<in> set xs then NaN
      else foldl (\<lambda>highest x. if num_lt highest x then x else highest) NegInf xs)"

text \<open>\<open>xs.indexOf(v)\<close>: the first index whose element is \<open>===\<close> to \<open>v\<close>, or \<open>-1\<close>.\<close>

fun indexOf_from :: "number list \<Rightarrow> number \<Rightarrow> int \<Rightarrow> int" where
  "indexOf_from [] v k = - 1"
| "indexOf_from (x # xs) v k = (if strict_eq x v then k else indexOf_from xs v (k + 1))"

definition indexOf :: "number list \<Rightarrow> number \<Rightarrow> int" where
  "indexOf xs v = indexOf_from xs v 0"

subsection \<open>Number.prototype.toFixed\<close>

definition digit_char :: "nat \<Rightarrow> char" where
  "digit_char d = ''0123456789'' ! (d mod 10)"

function nat_digits :: "nat \<Rightarrow> string" where
  "nat_digits n = (if n < 10 then [digit_char n] else nat_digits (n div 10) @ [digit_char n])"
  by pat_completeness auto
termination
  by (relation "measure id") auto

declare nat_digits.simps [simp del]

text \<open>
  The integer \<open>n\<close> for which \<open>n / 10^d\<close> is closest to \<open>x \<ge> 0\<close>, the larger one
  when two are equally close.
\<close>

definition scaled_round :: "nat \<Rightarrow> rat \<Rightarrow> nat" where
  "scaled_round d x = nat \<lfloor>x * 10 ^ d + 1 / 2\<rfloor>"

text \<open>
  What \<open>v.toFixed(d)\<close> returns: the characters of a print in fixed notation, or,
  for a finite \<open>v\<close> of magnitude \<open>10^21\<close> or more, the string \<open>String(v)\<close>.
  That string is in exponent notation with the shortest digits that read back as
  the same double; its characters depend on the binary representation and are not
  modelled, so it is kept as \<open>String_of v\<close>.
\<close>

datatype printed = Chars string | String_of rat

definition toFixed :: "nat \<Rightarrow> number \<Rightarrow> printed" where
  "toFixed d v =
     (case v of
        NaN \<Rightarrow> Chars ''NaN''
      | PosInf \<Rightarrow> Chars ''Infinity''
      | NegInf \<Rightarrow> Chars ''-Infinity''
      | Fin x \<Rightarrow>
          if 10 ^ 21 \<le> \<bar>x\<bar> then String_of x
          else
            (let n = scaled_round d \<bar>x\<bar>;
                 whole = nat_digits (n div 10 ^ d);
                 frac = nat_digits (n mod 10 ^ d);
                 padded = replicate (d - length frac) (CHR ''0'') @ frac
             in Chars ((if x < 0 then ''-'' else '''') @ whole
                         @ (if d = 0 then '''' else ''.'' @ padded))))"

text \<open>
  \<open>Number(v.toFixed(d))\<close>: the number the printed decimal reads back as. From
  \<open>10^21\<close> on the print is \<open>String(v)\<close>, which reads back as \<open>v\<close>.
\<close>

definition Number_toFixed :: "nat \<Rightarrow> number \<Rightarrow> number" where
  "Number_toFixed d v =
     (case v of
        Fin x \<Rightarrow>
          (if 10 ^ 21 \<le> \<bar>x\<bar> then Fin x
           else Fin ((if x < 0 then - 1 else 1) * of_nat (scaled_round d \<bar>x\<bar>) / 10 ^ d))
      | _ \<Rightarrow> v)"

subsection \<open>Array.prototype.sort\<close>

text \<open>
  \<open>xs.sort(cmp)\<close> puts \<open>a\<close> after \<open>b\<close> when \<open>cmp(a, b) > 0\<close>, and treats a
  \<open>NaN\<close> or zero result as "equal". The sort is stable (ECMAScript 2019; the
  project asks for Node 18), so for a consistent comparator its result is the one
  that the stable insertion below computes. For an inconsistent comparator the
  language leaves the order to the engine.
\<close>

definition positive :: "number \<Rightarrow> bool" where
  "positive c = num_lt (Fin 0) c"

fun insert_by :: "('a \<Rightarrow> 'a \<Rightarrow> number) \<Rightarrow> 'a \<Rightarrow> 'a list \<Rightarrow> 'a list" where
  "insert_by cmp x [] = [x]"
| "insert_by cmp x (y # ys) =
     (if positive (cmp x y) then y # insert_by cmp x ys else x # y # ys)"

definition array_sort :: "('a \<Rightarrow> 'a \<Rightarrow> number) \<Rightarrow> 'a list \<Rightarrow> 'a list" where
  "array_sort cmp xs = foldr (insert_by cmp) xs []"

text \<open>\<open>xs.join(sep)\<close>.\<close>

fun join :: "string \<Rightarrow> string list \<Rightarrow> string" where
  "join sep [] = ''''"
| "join sep [x] = x"
| "join sep (x # y # ys) = x @ sep @ join sep (y # ys)"

text \<open>\<open>s.includes(p)\<close>: \<open>p\<close> occurs in \<open>s\<close>.\<close>

fun startsWith :: "string \<Rightarrow> string \<Rightarrow> bool" where
  "startsWith s [] = True"
| "startsWith [] (p # ps) = False"
| "startsWith (c # cs) (p # ps) = (c = p \<and> startsWith cs ps)"

fun str_includes :: "string \<Rightarrow> string \<Rightarrow> bool" where
  "str_includes [] p = (p = [])"
| "str_includes (c # cs) p = (startsWith (c # cs) p \<or> str_includes cs p)"


section \<open>Tensors, arrays and the console\<close>

text \<open>
  A tensor is a handle (\<open>tid\<close>) with a shape and its values in row-major order.
  The world holds what outlives a call: the handles of the tensors that were created
  and not yet disposed (what \<open>tf.memory().numTensors\<close> counts), the JavaScript
  arrays that are shared by reference, and the console. \<open>calls\<close> is a ghost field:
  the request handler notes there each service method it enters.
\<close>

record tensor =
  tid :: nat
  shape :: "nat list"
  vals :: "number list"

datatype log_entry =
    Log string "(string \<times> string) list"
  | LogError string string

datatype call = ValidateImage | PreprocessImage | Predict

record world =
  live :: "nat set"
  next_id :: nat
  arrays :: "nat \<Rightarrow> string list option"
  next_ref :: nat
  console :: "log_entry list"
  calls :: "call list"

definition alloc :: "nat list \<Rightarrow> number list \<Rightarrow> world \<Rightarrow> tensor \<times> world" where
  "alloc sh vs w =
     (\<lparr>tid = next_id w, shape = sh, vals = vs\<rparr>,
      w\<lparr>live := insert (next_id w) (live w), next_id := Suc (next_id w)\<rparr>)"

text \<open>\<open>t.dispose()\<close>; disposing a tensor twice is harmless in tfjs.\<close>

definition dispose :: "tensor \<Rightarrow> world \<Rightarrow> world" where
  "dispose t w = w\<lparr>live := live w - {tid t}\<rparr>"

definition console_log :: "string \<Rightarrow> (string \<times> string) list \<Rightarrow> world \<Rightarrow> world" where
  "console_log label payload w = w\<lparr>console := console w @ [Log label payload]\<rparr>"

definition console_error :: "string \<Rightarrow> string \<Rightarrow> world \<Rightarrow> world" where
  "console_error label e w = w\<lparr>console := console w @ [LogError label e]\<rparr>"

definition called :: "call \<Rightarrow> world \<Rightarrow> world" where
  "called c w = w\<lparr>calls := calls w @ [c]\<rparr>"

text \<open>Reading an array through its reference.\<close>

definition read_array :: "world \<Rightarrow> nat \<Rightarrow> string list" where
  "read_array w a = (case arrays w a of None \<Rightarrow> [] | Some xs \<Rightarrow> xs)"

text \<open>An array literal or a spread copy: a new array, at a reference not used before.\<close>

definition new_array :: "string list \<Rightarrow> world \<Rightarrow> nat \<times> world" where
  "new_array xs w =
     (next_ref w, w\<lparr>arrays := (arrays w)(next_ref w \<mapsto> xs), next_ref := Suc (next_ref w)\<rparr>)"

text \<open>Any write through a reference (\<open>xs[i] = v\<close>, \<open>push\<close>, \<open>sort\<close>, ...) ends in new contents.\<close>

definition write_array :: "nat \<Rightarrow> string list \<Rightarrow> world \<Rightarrow> world" where
  "write_array a xs w = w\<lparr>arrays := (arrays w)(a \<mapsto> xs)\<rparr>"

text \<open>
  Element-wise tfjs operations with a scalar. Each call creates one tensor (an op
  releases its own temporaries before it returns).
\<close>

definition tf_sub :: "tensor \<Rightarrow> rat \<Rightarrow> world \<Rightarrow> tensor \<times> world" where
  "tf_sub t c w = alloc (shape t) (map (\<lambda>v. num_sub v (Fin c)) (vals t)) w"

definition tf_div :: "tensor \<Rightarrow> rat \<Rightarrow> world \<Rightarrow> tensor \<times> world" where
  "tf_div t c w = alloc (shape t) (map (\<lambda>v. num_div v c) (vals t)) w"

definition tf_expandDims :: "tensor \<Rightarrow> nat \<Rightarrow> world \<Rightarrow> tensor \<times> world" where
  "tf_expandDims t axis w = alloc (take axis (shape t) @ [1] @ drop axis (shape t)) (vals t) w"

text \<open>A thrown \<open>Error\<close> with its message, and \<open>String(error)\<close>.\<close>

datatype js_error = Error string

definition error_string :: "js_error \<Rightarrow> string" where
  "error_string e = (case e of Error msg \<Rightarrow> ''Error: '' @ msg)"

section \<open>The libraries\<close>

text \<open>
  sharp, the tfjs image operations and the model artifact are not code of this
  repository. Each is a parameter: a function from the call's arguments to what the
  call returns, or \<open>Inl s\<close> when it throws, \<open>s\<close> being \<open>String\<close> of the thrown
  value. A decoded or resized image comes back as its shape and values; the caller's
  model gives it a handle.
\<close>

type_synonym buffer = "nat list"

record sharp_metadata =
  md_width :: "nat option"
  md_height :: "nat option"
  md_format :: "string option"
  md_channels :: "nat option"

type_synonym graph_model = "tensor \<Rightarrow> string + nat list \<times> number list"

record library =
  sharp_metadata_of :: "buffer \<Rightarrow> string + sharp_metadata"
  sharp_resize_png :: "buffer \<Rightarrow> nat \<Rightarrow> nat \<Rightarrow> string + buffer"
  decodeImage :: "buffer \<Rightarrow> nat \<Rightarrow> string + nat list \<times> number list"
  resizeBilinear :: "tensor \<Rightarrow> nat \<times> nat \<Rightarrow> string + nat list \<times> number list"
  loadGraphModel :: "string \<Rightarrow> string + graph_model"

section \<open>ImageProcessor\<close>

definition TARGET_WIDTH :: nat where
  "TARGET_WIDTH = 32"

definition TARGET_HEIGHT :: nat where
  "TARGET_HEIGHT = 32"

record ImageMetadata =
  width :: nat
  height :: nat
  format :: string
  size' :: nat
  channels :: nat

text \<open>The \<open>catch\<close> block of \<open>preprocessImage\<close>.\<close>

definition preprocess_failed :: "string \<Rightarrow> world \<Rightarrow> (js_error + tensor) \<times> world" where
  "preprocess_failed e w =
     (Inl (Error (''Image preprocessing failed: '' @ e)),
      console_error ''Error preprocessing image:'' e w)"

definition preprocessImage :: "library \<Rightarrow> buffer \<Rightarrow> world \<Rightarrow> (js_error + tensor) \<times> world" where
  "preprocessImage lib imageBuffer w =
     (case sharp_resize_png lib imageBuffer TARGET_WIDTH TARGET_HEIGHT of
        Inl e \<Rightarrow> preprocess_failed e w
      | Inr processedBuffer \<Rightarrow>
          (case decodeImage lib processedBuffer 3 of
             Inl e \<Rightarrow> preprocess_failed e w
           | Inr (sh, vs) \<Rightarrow>
               (let (imageTensor, w1) = alloc sh vs w in
                case resizeBilinear lib imageTensor (TARGET_WIDTH, TARGET_HEIGHT) of
                  Inl e \<Rightarrow> preprocess_failed e w1
                | Inr (sh', vs') \<Rightarrow>
                    (let (resizedTensor, w2) = alloc sh' vs' w1;
                         (difference, w3) = tf_sub resizedTensor (255 / 2) w2;
                         (normalizedTensor, w4) = tf_div difference (255 / 2) w3;
                         (batchedTensor, w5) = tf_expandDims normalizedTensor 0 w4;
                         w6 = dispose imageTensor w5;
                         w7 = dispose resizedTensor w6;
                         w8 = dispose normalizedTensor w7
                     in (Inr batchedTensor, w8)))))"

text \<open>
  \<open>!x\<close> for an optional number: true for \<open>undefined\<close> and for \<open>0\<close>; for an
  optional string: true for \<open>undefined\<close> and for the empty string.
\<close>

definition falsy_nat :: "nat option \<Rightarrow> bool" where
  "falsy_nat x = (case x of None \<Rightarrow> True | Some n \<Rightarrow> n = 0)"

definition falsy_string :: "string option \<Rightarrow> bool" where
  "falsy_string x = (case x of None \<Rightarrow> True | Some s \<Rightarrow> s = [])"

text \<open>An optional string inside a template literal.\<close>

definition template_string :: "string option \<Rightarrow> string" where
  "template_string x = (case x of None \<Rightarrow> ''undefined'' | Some s \<Rightarrow> s)"

definition supportedFormats :: "string list" where
  "supportedFormats = [''jpeg'', ''jpg'', ''png'', ''webp'', ''gif'', ''bmp'']"

text \<open>The \<open>catch\<close> block of \<open>validateImage\<close>.\<close>

definition validation_failed :: "string \<Rightarrow> world \<Rightarrow> (js_error + ImageMetadata) \<times> world" where
  "validation_failed e w =
     (Inl (Error (''Image validation failed: '' @ e)),
      console_error ''Error validating image:'' e w)"

definition validateImage :: "library \<Rightarrow> buffer \<Rightarrow> world \<Rightarrow> (js_error + ImageMetadata) \<times> world" where
  "validateImage lib imageBuffer w =
     (case sharp_metadata_of lib imageBuffer of
        Inl e \<Rightarrow> validation_failed e w
      | Inr metadata \<Rightarrow>
          if falsy_nat (md_width metadata) \<or> falsy_nat (md_height metadata)
          then validation_failed (error_string (Error ''Unable to determine image dimensions'')) w
          else if falsy_string (md_format metadata)
                  \<or> template_string (md_format metadata) \<notin> set supportedFormats
          then validation_failed
                 (error_string (Error (''Unsupported image format: ''
                    @ template_string (md_format metadata)
                    @ ''. Supported: '' @ join '', '' supportedFormats))) w
          else (Inr \<lparr>width = the (md_width metadata),
                     height = the (md_height metadata),
                     format = template_string (md_format metadata),
                     size' = length imageBuffer,
                     channels = (if falsy_nat (md_channels metadata) then 3
                                 else the (md_channels metadata))\<rparr>, w))"


section \<open>ModelService\<close>

text \<open>
  \<open>model\<close> is \<open>None\<close> for JavaScript's \<open>null\<close>. \<open>classes\<close> is the reference of
  the array that the field initialiser creates.
\<close>

record ModelService =
  model :: "graph_model option"
  modelPath :: string
  classes :: nat

record ClassProbability =
  className :: string
  probability :: "number option"
  percentage :: printed

record PredictionResult =
  predictedClass :: "string option"
  confidence :: number
  confidencePercentage :: printed
  allPredictions :: "ClassProbability list"

definition class_names :: "string list" where
  "class_names =
     [''plane'', ''car'', ''bird'', ''cat'', ''deer'', ''dog'', ''frog'', ''horse'', ''ship'', ''truck'']"

text \<open>\<open>new ModelService(modelPath)\<close>.\<close>

definition new_ModelService :: "string \<Rightarrow> world \<Rightarrow> ModelService \<times> world" where
  "new_ModelService path w =
     (let (r, w1) = new_array class_names w
      in (\<lparr>model = None, modelPath = path, classes = r\<rparr>, w1))"

definition loadModel ::
  "library \<Rightarrow> ModelService \<Rightarrow> world \<Rightarrow> (js_error + unit) \<times> ModelService \<times> world" where
  "loadModel lib svc w =
     (let w1 = console_log (''Loading model from: '' @ modelPath svc) [] w in
      case loadGraphModel lib (''file://'' @ modelPath svc @ ''/model.json'') of
        Inl e \<Rightarrow>
          (Inl (Error (''Failed to load model: '' @ e)), svc,
           console_error ''Error loading model:'' e w1)
      | Inr m \<Rightarrow>
          (Inr (), svc\<lparr>model := Some m\<rparr>, console_log ''Model loaded successfully'' [] w1))"

definition isModelLoaded :: "ModelService \<Rightarrow> bool" where
  "isModelLoaded svc = (case model svc of None \<Rightarrow> False | Some m \<Rightarrow> True)"

definition getClasses :: "ModelService \<Rightarrow> world \<Rightarrow> nat \<times> world" where
  "getClasses svc w = new_array (read_array w (classes svc)) w"

text \<open>The \<open>catch\<close> block of \<open>predict\<close>.\<close>

definition prediction_failed :: "string \<Rightarrow> world \<Rightarrow> (js_error + PredictionResult) \<times> world" where
  "prediction_failed e w =
     (Inl (Error (''Prediction failed: '' @ e)), console_error ''Error during prediction:'' e w)"

text \<open>What \<open>undefined.toFixed(4)\<close> throws, as a string.\<close>

definition undefined_toFixed :: string where
  "undefined_toFixed =
     ''TypeError: Cannot read properties of undefined (reading '' @ [CHR 0x27] @ ''toFixed''
       @ [CHR 0x27] @ '')''"

text \<open>The object built for one class in \<open>classes.map\<close>.\<close>

definition class_result :: "number list \<Rightarrow> nat \<times> string \<Rightarrow> ClassProbability" where
  "class_result probabilities entry =
     (case entry of (index, name) \<Rightarrow>
        \<lparr>className = name,
         probability = elem_at probabilities (int index),
         percentage = toFixed 2 (num_mul (to_number (elem_at probabilities (int index))) (Fin 100))\<rparr>)"

text \<open>The comparator \<open>(a, b) => b.probability - a.probability\<close>.\<close>

definition by_probability :: "ClassProbability \<Rightarrow> ClassProbability \<Rightarrow> number" where
  "by_probability a b = num_sub (to_number (probability b)) (to_number (probability a))"

definition predict ::
  "ModelService \<Rightarrow> tensor \<Rightarrow> world \<Rightarrow> (js_error + PredictionResult) \<times> world" where
  "predict svc preprocessedImage w =
     (case model svc of
        None \<Rightarrow> (Inl (Error ''Model not loaded. Call loadModel() first.''), w)
      | Some m \<Rightarrow>
          (case m preprocessedImage of
             Inl e \<Rightarrow> prediction_failed e w
           | Inr (sh, output) \<Rightarrow>
               (let (prediction, w1) = alloc sh output w;
                    probabilities = vals prediction;
                    maxProbabilityIndex = indexOf probabilities (Math_max probabilities);
                    predictedClass = elem_at (read_array w1 (classes svc)) maxProbabilityIndex;
                    confidence = elem_at probabilities maxProbabilityIndex;
                    classResults =
                      map (class_result probabilities) (enumerate 0 (read_array w1 (classes svc)));
                    sorted = array_sort by_probability classResults;
                    w2 = dispose prediction w1
                in case confidence of
                     None \<Rightarrow> prediction_failed undefined_toFixed w2
                   | Some c \<Rightarrow>
                       (Inr \<lparr>predictedClass = predictedClass,
                             confidence = Number_toFixed 4 c,
                             confidencePercentage = toFixed 2 (num_mul c (Fin 100)),
                             allPredictions = sorted\<rparr>, w2))))"

section \<open>ClassificationController\<close>

record multer_file =
  buffer :: buffer
  originalname :: string
  file_size :: nat
  mimetype :: string

record request =
  req_file :: "multer_file option"

text \<open>What the handler reads from the clock: \<open>Date.now()\<close> twice, and the timestamp.\<close>

record clock =
  start_ms :: int
  end_ms :: int
  iso_now :: string

record result_body =
  r_predictedClass :: "string option"
  r_confidence :: number
  r_confidencePercentage :: printed
  r_allPredictions :: "ClassProbability list"

record original_image =
  o_filename :: string
  o_size :: nat
  o_mimetype :: string
  o_dimensions :: string

record processing =
  p_timeMs :: int
  p_modelInputSize :: string
  p_normalization :: string

datatype body =
    Failure string string "string option"
  | Success result_body original_image processing string

record response =
  status :: nat
  body :: body

text \<open>The template \<open>${width}x${height}\<close>.\<close>

definition dimensions :: "ImageMetadata \<Rightarrow> string" where
  "dimensions m = nat_digits (width m) @ ''x'' @ nat_digits (height m)"

text \<open>The \<open>result\<close> object of the successful response.\<close>

definition result_of :: "PredictionResult \<Rightarrow> result_body" where
  "result_of prediction =
     \<lparr>r_predictedClass = predictedClass prediction,
      r_confidence = confidence prediction,
      r_confidencePercentage = confidencePercentage prediction,
      r_allPredictions = take 5 (allPredictions prediction)\<rparr>"

text \<open>The \<open>catch\<close> block of \<open>classifyImage\<close>.\<close>

definition classification_error :: "clock \<Rightarrow> js_error \<Rightarrow> world \<Rightarrow> response \<times> world" where
  "classification_error clk error w =
     (let w1 = console_error ''Classification error:'' (error_string error) w;
          message = (case error of Error msg \<Rightarrow> msg)
      in if str_includes message ''Image validation failed''
            \<or> str_includes message ''Image preprocessing failed''
         then (\<lparr>status = 400,
                body = Failure ''Invalid image'' message (Some (iso_now clk))\<rparr>, w1)
         else if str_includes message ''Model not loaded''
         then (\<lparr>status = 503,
                body = Failure ''Service unavailable'' ''Classification model is not ready''
                         (Some (iso_now clk))\<rparr>, w1)
         else (\<lparr>status = 500,
                body = Failure ''Classification failed''
                         ''An error occurred during image classification''
                         (Some (iso_now clk))\<rparr>, w1))"

definition classifyImage ::
  "library \<Rightarrow> clock \<Rightarrow> ModelService \<Rightarrow> request \<Rightarrow> world \<Rightarrow> response \<times> world" where
  "classifyImage lib clk modelService req w =
     (case req_file req of
        None \<Rightarrow>
          (\<lparr>status = 400,
            body = Failure ''No image file provided''
                     (''Please upload an image file using the '' @ [CHR 0x22] @ ''image''
                        @ [CHR 0x22] @ '' field'') None\<rparr>, w)
      | Some f \<Rightarrow>
          if \<not> isModelLoaded modelService
          then (\<lparr>status = 503,
                 body = Failure ''Model not available''
                          ''The classification model is not loaded yet. Please try again later.''
                          None\<rparr>, w)
          else
            (case validateImage lib (buffer f) (called ValidateImage w) of
               (Inl e, w1) \<Rightarrow> classification_error clk e w1
             | (Inr imageMetadata, w1) \<Rightarrow>
                 (let w2 = console_log ''Processing image:''
                             [(''originalName'', originalname f),
                              (''size'', nat_digits (file_size f)),
                              (''mimetype'', mimetype f),
                              (''dimensions'', dimensions imageMetadata)] w1
                  in case preprocessImage lib (buffer f) (called PreprocessImage w2) of
                       (Inl e, w3) \<Rightarrow> classification_error clk e w3
                     | (Inr preprocessedImage, w3) \<Rightarrow>
                         (case predict modelService preprocessedImage (called Predict w3) of
                            (Inl e, w4) \<Rightarrow> classification_error clk e w4
                          | (Inr prediction, w4) \<Rightarrow>
                              (let w5 = dispose preprocessedImage w4
                               in (\<lparr>status = 200,
                                    body = Success (result_of prediction)
                                             \<lparr>o_filename = originalname f,
                                              o_size = file_size f,
                                              o_mimetype = mimetype f,
                                              o_dimensions = dimensions imageMetadata\<rparr>
                                             \<lparr>p_timeMs = end_ms clk - start_ms clk,
                                              p_modelInputSize = ''32x32x3'',
                                              p_normalization = ''Range [-1, 1]''\<rparr>
                                             (iso_now clk)\<rparr>, w5))))))"


section \<open>Notions of the specification\<close>

text \<open>\<open>a \<le> b\<close> on numbers: false as soon as one side is \<open>NaN\<close>.\<close>

definition num_le :: "number \<Rightarrow> number \<Rightarrow> bool" where
  "num_le a b = (strict_eq a b \<or> num_lt a b)"

text \<open>Sorted by probability, highest first: no entry is followed by a greater one.\<close>

definition descending :: "ClassProbability list \<Rightarrow> bool" where
  "descending xs =
     sorted_wrt (\<lambda>a b. \<not> num_lt (to_number (probability a)) (to_number (probability b))) xs"

text \<open>The entry of a class whose probability is present.\<close>

definition entry :: "string \<Rightarrow> number \<Rightarrow> ClassProbability" where
  "entry name p =
     \<lparr>className = name, probability = Some p, percentage = toFixed 2 (num_mul p (Fin 100))\<rparr>"

text \<open>The normalisation as the specification writes it: \<open>(value / 127.5) - 1\<close>.\<close>

definition spec_normalize :: "rat \<Rightarrow> rat" where
  "spec_normalize v = v / (255 / 2) - 1"

definition is_pixel :: "number \<Rightarrow> bool" where
  "is_pixel v = (case v of Fin x \<Rightarrow> 0 \<le> x \<and> x \<le> 255 | _ \<Rightarrow> False)"

definition in_unit_range :: "number \<Rightarrow> bool" where
  "in_unit_range v = (case v of Fin x \<Rightarrow> - 1 \<le> x \<and> x \<le> 1 | _ \<Rightarrow> False)"

text \<open>
  What the libraries promise for the calls \<open>preprocessImage\<close> makes. The buffer
  that sharp's \<open>resize(32, 32).png().toBuffer()\<close> returns is a PNG image, and
  \<open>tf.node.decodeImage\<close> of a PNG buffer with 3 channels returns a tensor of shape
  \<open>[height, width, 3]\<close>, both positive, whose values are bytes. (Of other
  buffers nothing is asked: of an animated GIF \<open>decodeImage\<close> returns rank 4.)
  \<open>tf.image.resizeBilinear\<close> of a non-empty \<open>[h, w, c]\<close> image to \<open>[32, 32]\<close>
  returns shape \<open>[32, 32, c]\<close>, and each value is a weighted mean of input values,
  so bytes stay within \<open>[0, 255]\<close>.
\<close>

definition decode_contract :: "library \<Rightarrow> bool" where
  "decode_contract lib =
     (\<forall>b png sh vs.
        sharp_resize_png lib b TARGET_WIDTH TARGET_HEIGHT = Inr png
          \<and> decodeImage lib png 3 = Inr (sh, vs) \<longrightarrow>
        (\<exists>h w. sh = [h, w, 3] \<and> 0 < h \<and> 0 < w) \<and> length vs = prod_list sh
          \<and> (\<forall>v\<in>set vs. is_pixel v))"

definition resize_contract :: "library \<Rightarrow> bool" where
  "resize_contract lib =
     (\<forall>t sh vs h w c.
        resizeBilinear lib t (TARGET_WIDTH, TARGET_HEIGHT) = Inr (sh, vs)
          \<and> shape t = [h, w, c] \<and> 0 < h \<and> 0 < w
          \<and> length (vals t) = prod_list (shape t) \<and> (\<forall>v\<in>set (vals t). is_pixel v) \<longrightarrow>
        sh = [TARGET_WIDTH, TARGET_HEIGHT, c] \<and> length vs = prod_list sh
          \<and> (\<forall>v\<in>set vs. is_pixel v))"

text \<open>The two conditions under which the specification lets \<open>validateImage\<close> fail.\<close>

definition dimensions_undetermined :: "library \<Rightarrow> buffer \<Rightarrow> bool" where
  "dimensions_undetermined lib imageBuffer =
     (case sharp_metadata_of lib imageBuffer of
        Inl e \<Rightarrow> True
      | Inr metadata \<Rightarrow> md_width metadata \<in> {None, Some 0} \<or> md_height metadata \<in> {None, Some 0})"

definition format_unsupported :: "library \<Rightarrow> buffer \<Rightarrow> bool" where
  "format_unsupported lib imageBuffer =
     (case sharp_metadata_of lib imageBuffer of
        Inl e \<Rightarrow> False
      | Inr metadata \<Rightarrow>
          md_format metadata \<notin> Some ` {''jpeg'', ''jpg'', ''png'', ''webp'', ''gif'', ''bmp''})"

section \<open>Example inputs\<close>

definition ex_world :: world where
  "ex_world =
     \<lparr>live = {}, next_id = 0, arrays = (\<lambda>r. None), next_ref = 0, console = [], calls = []\<rparr>"

text \<open>
  A 32 by 32 image in which every pixel has the channels 0, 51 and 255, and a
  stand-in for the image libraries on it. Its sharp returns four bytes that stand
  for the PNG buffer; its decoder answers those bytes only, and returns rank 4 for
  any other buffer, as the real decoder does for an animated GIF.
\<close>

definition ex_pixels :: "number list" where
  "ex_pixels = concat (replicate 1024 [Fin 0, Fin 51, Fin 255])"

definition ex_probabilities :: "number list" where
  "ex_probabilities =
     [Fin (1 / 10), Fin (3 / 10), Fin (1 / 20), Fin (3 / 10), Fin 0,
      Fin 0, Fin 0, Fin (1 / 4), Fin 0, Fin 0]"

definition ex_model :: graph_model where
  "ex_model = (\<lambda>t. Inr ([1, 10], ex_probabilities))"

definition throwing_model :: graph_model where
  "throwing_model = (\<lambda>t. Inl ''Error: inference failed'')"

definition ex_library :: library where
  "ex_library =
     \<lparr>sharp_metadata_of =
        (\<lambda>b. Inr \<lparr>md_width = Some 500, md_height = Some 400, md_format = Some ''png'',
                  md_channels = Some 3\<rparr>),
      sharp_resize_png = (\<lambda>b w h. Inr [137, 80, 78, 71]),
      decodeImage =
        (\<lambda>b c. if b = [137, 80, 78, 71] then Inr ([32, 32, c], ex_pixels)
               else Inr ([1, 1, 1, c], replicate c (Fin 0))),
      resizeBilinear =
        (\<lambda>t sz. if shape t = [fst sz, snd sz, 3] then Inr (shape t, vals t)
                else Inl ''Error: not part of the example''),
      loadGraphModel = (\<lambda>path. Inr ex_model)\<rparr>"

text \<open>A library whose sharp reports a TIFF image.\<close>

definition tiff_library :: library where
  "tiff_library =
     ex_library\<lparr>sharp_metadata_of :=
        (\<lambda>b. Inr \<lparr>md_width = Some 500, md_height = Some 400, md_format = Some ''tiff'',
                  md_channels = Some 3\<rparr>)\<rparr>"

text \<open>A library whose \<open>resizeBilinear\<close> throws, and a model that returns \<open>NaN\<close>.\<close>

definition resize_throwing_library :: library where
  "resize_throwing_library =
     ex_library\<lparr>resizeBilinear := (\<lambda>t sz. Inl ''Error: out of memory'')\<rparr>"

definition nan_model :: graph_model where
  "nan_model = (\<lambda>t. Inr ([1, 10], [NaN, NaN, NaN, NaN, NaN, NaN, NaN, NaN, NaN, NaN]))"

definition ex_file :: multer_file where
  "ex_file =
     \<lparr>buffer = [137, 80, 78, 71], originalname = ''cat.png'', file_size = 4,
      mimetype = ''image/png''\<rparr>"

definition ex_request :: request where
  "ex_request = \<lparr>req_file = Some ex_file\<rparr>"

definition no_file_request :: request where
  "no_file_request = \<lparr>req_file = None\<rparr>"

definition ex_clock :: clock where
  "ex_clock = \<lparr>start_ms = 1000, end_ms = 1030, iso_now = ''2024-01-01T00:00:00.000Z''\<rparr>"

text \<open>The service as constructed, and as it is once a model is loaded.\<close>

definition ex_service :: ModelService where
  "ex_service = fst (new_ModelService ''./model_js'' ex_world)"

definition started_world :: world where
  "started_world = snd (new_ModelService ''./model_js'' ex_world)"

definition loaded_service :: ModelService where
  "loaded_service = ex_service\<lparr>model := Some ex_model\<rparr>"

definition ex_tensor :: tensor where
  "ex_tensor = \<lparr>tid = 4, shape = [1, 32, 32, 3], vals = replicate 3072 (Fin 1)\<rparr>"


section \<open>Order and sorting lemmas\<close>

lemma num_lt_irrefl [simp]: "\<not> num_lt a a"
  by (cases a) auto

lemma num_lt_trans: "num_lt a b \<Longrightarrow> num_lt b c \<Longrightarrow> num_lt a c"
  by (cases a; cases b; cases c) auto

lemma num_lt_asym: "num_lt a b \<Longrightarrow> \<not> num_lt b a"
  by (cases a; cases b) auto

lemma num_lt_total: "a \<noteq> NaN \<Longrightarrow> b \<noteq> NaN \<Longrightarrow> num_lt a b \<or> a = b \<or> num_lt b a"
  by (cases a; cases b) auto

lemma num_lt_NaN [simp]: "\<not> num_lt a NaN" "\<not> num_lt NaN a"
  by (cases a; simp)+

lemma num_ge_trans:
  "b \<noteq> NaN \<Longrightarrow> \<not> num_lt a b \<Longrightarrow> \<not> num_lt b c \<Longrightarrow> \<not> num_lt a c"
  by (cases a; cases b; cases c) auto

lemma positive_sub: "positive (num_sub b a) = num_lt a b"
  by (cases a; cases b) (auto simp: positive_def)

lemma positive_by_probability:
  "positive (by_probability a b) = num_lt (to_number (probability a)) (to_number (probability b))"
  by (simp add: by_probability_def positive_sub)


text \<open>Insertion keeps the elements.\<close>

lemma set_insert_by: "set (insert_by cmp x ys) = insert x (set ys)"
  by (induction ys) auto

lemma length_insert_by: "length (insert_by cmp x ys) = Suc (length ys)"
  by (induction ys) auto

lemma set_array_sort: "set (array_sort cmp xs) = set xs"
  by (induction xs) (auto simp: array_sort_def set_insert_by)

lemma length_array_sort: "length (array_sort cmp xs) = length xs"
  by (induction xs) (auto simp: array_sort_def length_insert_by)

lemma descending_insert_by:
  assumes "descending ys" "to_number (probability x) \<noteq> NaN"
    "\<forall>y\<in>set ys. to_number (probability y) \<noteq> NaN"
  shows "descending (insert_by by_probability x ys)"
  using assms
proof (induction ys)
  case Nil
  then show ?case by (simp add: descending_def)
next
  case (Cons y ys)
  show ?case
  proof (cases "num_lt (to_number (probability x)) (to_number (probability y))")
    case True
    have rest: "descending (insert_by by_probability x ys)"
      using Cons by (simp add: descending_def)
    have "\<not> num_lt (to_number (probability y)) (to_number (probability x))"
      using True by (rule num_lt_asym)
    with Cons.prems True rest show ?thesis
      by (auto simp: descending_def positive_by_probability set_insert_by)
  next
    case False
    have "\<not> num_lt (to_number (probability x)) (to_number (probability z))" if "z \<in> set ys" for z
    proof -
      have "\<not> num_lt (to_number (probability y)) (to_number (probability z))"
        using Cons.prems(1) that by (simp add: descending_def)
      moreover have "to_number (probability y) \<noteq> NaN"
        using Cons.prems(3) by simp
      ultimately show ?thesis
        using False num_ge_trans by blast
    qed
    with Cons.prems False show ?thesis
      by (auto simp: descending_def positive_by_probability)
  qed
qed

lemma descending_array_sort:
  "\<forall>y\<in>set xs. to_number (probability y) \<noteq> NaN \<Longrightarrow> descending (array_sort by_probability xs)"
proof (induction xs)
  case Nil
  then show ?case by (simp add: array_sort_def descending_def)
next
  case (Cons x xs)
  then have "descending (insert_by by_probability x (array_sort by_probability xs))"
    by (intro descending_insert_by) (auto simp: set_array_sort)
  then show ?case by (simp add: array_sort_def)
qed

text \<open>Stability: the entries of one probability keep their order.\<close>

lemma filter_insert_by:
  "filter (\<lambda>c. probability c = p) (insert_by by_probability x ys) =
     (if probability x = p then x # filter (\<lambda>c. probability c = p) ys
      else filter (\<lambda>c. probability c = p) ys)"
proof (induction ys)
  case Nil
  then show ?case by simp
next
  case (Cons y ys)
  have "probability y \<noteq> probability x"
    if "num_lt (to_number (probability x)) (to_number (probability y))"
    using that by auto
  with Cons show ?case
    by (auto simp: positive_by_probability)
qed

lemma filter_array_sort:
  "filter (\<lambda>c. probability c = p) (array_sort by_probability xs) =
     filter (\<lambda>c. probability c = p) xs"
  by (induction xs) (auto simp: array_sort_def filter_insert_by)

section \<open>The greatest probability and its first index\<close>

lemma num_le_not_NaN: "num_le a b \<Longrightarrow> a \<noteq> NaN \<and> b \<noteq> NaN"
  by (cases a; cases b) (auto simp: num_le_def strict_eq_def)

lemma foldl_highest:
  assumes "NaN \<notin> set xs" "hi \<noteq> NaN"
  shows "foldl (\<lambda>highest x. if num_lt highest x then x else highest) hi xs \<in> set (hi # xs)
       \<and> (\<forall>x\<in>set (hi # xs).
            \<not> num_lt (foldl (\<lambda>highest x. if num_lt highest x then x else highest) hi xs) x)"
  using assms
proof (induction xs arbitrary: hi)
  case Nil
  then show ?case by simp
next
  case (Cons x xs)
  let ?step = "\<lambda>highest x. if num_lt highest x then x else highest"
  let ?h = "?step hi x"
  let ?m = "foldl ?step ?h xs"
  have h: "?h \<noteq> NaN" using Cons.prems by auto
  have ih: "?m \<in> set (?h # xs) \<and> (\<forall>y\<in>set (?h # xs). \<not> num_lt ?m y)"
    using Cons.IH [of ?h] Cons.prems h by simp
  have mh: "\<not> num_lt ?m ?h" using ih by simp
  have "\<not> num_lt ?m hi \<and> \<not> num_lt ?m x"
  proof (cases "num_lt hi x")
    case True
    with mh have "\<not> num_lt ?m x" by simp
    moreover have "\<not> num_lt ?m hi"
      using True calculation num_lt_trans by blast
    ultimately show ?thesis by simp
  next
    case False
    with mh have "\<not> num_lt ?m hi" by simp
    moreover have "\<not> num_lt ?m x"
      using False calculation Cons.prems(2) num_ge_trans by blast
    ultimately show ?thesis by simp
  qed
  moreover have "?m \<in> set (hi # x # xs)"
    using ih by (auto split: if_splits)
  ultimately show ?case using ih by simp
qed

lemma Math_max_maximum:
  assumes "i < length ps" "\<forall>j<length ps. num_le (ps ! j) (ps ! i)"
  shows "Math_max ps = ps ! i"
proof -
  have noNaN: "NaN \<notin> set ps"
  proof
    assume "NaN \<in> set ps"
    then obtain j where "j < length ps" "ps ! j = NaN"
      by (auto simp: in_set_conv_nth)
    with assms(2) have "num_le NaN (ps ! i)" by force
    then show False using num_le_not_NaN by blast
  qed
  let ?m = "foldl (\<lambda>highest x. if num_lt highest x then x else highest) NegInf ps"
  have m: "?m \<in> set (NegInf # ps)" "\<forall>x\<in>set (NegInf # ps). \<not> num_lt ?m x"
    using foldl_highest [OF noNaN, of NegInf] by simp_all
  have mem: "ps ! i \<in> set ps" using assms(1) by simp
  have top: "ps ! i \<noteq> NaN" "\<not> num_lt ?m (ps ! i)"
  proof -
    show "ps ! i \<noteq> NaN" using noNaN mem by metis
    show "\<not> num_lt ?m (ps ! i)" using m(2) mem by simp
  qed
  have "?m = ps ! i"
  proof (cases "?m \<in> set ps")
    case True
    then obtain j where "j < length ps" "ps ! j = ?m"
      by (auto simp: in_set_conv_nth)
    then have "num_le ?m (ps ! i)" using assms(2) by metis
    with top(2) show ?thesis by (simp add: num_le_def strict_eq_def)
  next
    case False
    with m(1) have "?m = NegInf" by simp
    with top show ?thesis by (cases "ps ! i") auto
  qed
  with noNaN show ?thesis by (simp add: Math_max_def)
qed

lemma indexOf_from_first:
  assumes "i < length ps" "ps ! i \<noteq> NaN" "\<forall>j<i. ps ! j \<noteq> ps ! i"
  shows "indexOf_from ps (ps ! i) k = k + int i"
  using assms
proof (induction ps arbitrary: i k)
  case Nil
  then show ?case by simp
next
  case (Cons x xs)
  show ?case
  proof (cases i)
    case 0
    with Cons.prems show ?thesis by (simp add: strict_eq_def)
  next
    case (Suc n)
    have "x \<noteq> xs ! n" using Cons.prems(3) Suc by auto
    moreover have "indexOf_from xs (xs ! n) (k + 1) = k + 1 + int n"
      using Cons.prems Suc by (intro Cons.IH) auto
    ultimately show ?thesis using Suc by (simp add: strict_eq_def)
  qed
qed

lemma indexOf_Math_max:
  assumes "i < length ps" "\<forall>j<length ps. num_le (ps ! j) (ps ! i)" "\<forall>j<i. ps ! j \<noteq> ps ! i"
  shows "indexOf ps (Math_max ps) = int i"
proof -
  have "ps ! i \<noteq> NaN" using assms(1,2) num_le_not_NaN by blast
  then show ?thesis
    using assms by (simp add: indexOf_def Math_max_maximum indexOf_from_first)
qed

lemma hd_filter_first:
  assumes "i < length xs" "P (xs ! i)" "\<forall>j<i. \<not> P (xs ! j)"
  shows "hd (filter P xs) = xs ! i"
  using assms
proof (induction xs arbitrary: i)
  case Nil
  then show ?case by simp
next
  case (Cons x xs)
  show ?case
  proof (cases i)
    case 0
    with Cons.prems show ?thesis by simp
  next
    case (Suc n)
    have "\<not> P x" using Cons.prems(3) Suc by auto
    moreover have "hd (filter P xs) = xs ! n"
      using Cons.prems Suc by (intro Cons.IH) auto
    ultimately show ?thesis using Suc by simp
  qed
qed

lemma to_number_inj:
  "to_number a \<noteq> NaN \<Longrightarrow> to_number a = to_number b \<Longrightarrow> a = b"
  by (cases a; cases b) (auto simp: to_number_def)

lemma hd_array_sort:
  assumes nn: "\<forall>y\<in>set xs. to_number (probability y) \<noteq> NaN"
    and i: "i < length xs"
    and top: "\<forall>j<length xs. \<not> num_lt (to_number (probability (xs ! i))) (to_number (probability (xs ! j)))"
    and first: "\<forall>j<i. probability (xs ! j) \<noteq> probability (xs ! i)"
  shows "hd (array_sort by_probability xs) = xs ! i"
proof -
  let ?s = "array_sort by_probability xs"
  let ?k = "\<lambda>c. to_number (probability c)"
  have "?s \<noteq> []" using i length_array_sort [of by_probability xs] by auto
  then obtain h t where s: "?s = h # t" by (cases ?s) auto
  have desc: "descending ?s" using nn by (rule descending_array_sort)
  have hin: "h \<in> set xs" using s set_array_sort [of by_probability xs] by auto
  have xin: "xs ! i \<in> set ?s" using i by (simp add: set_array_sort)
  have "\<not> num_lt (?k h) (?k (xs ! i))"
    using desc xin unfolding s descending_def by auto
  moreover have "\<not> num_lt (?k (xs ! i)) (?k h)"
  proof -
    obtain j where "j < length xs" "xs ! j = h"
      using hin by (auto simp: in_set_conv_nth)
    with top show ?thesis by force
  qed
  moreover have "?k h \<noteq> NaN" "?k (xs ! i) \<noteq> NaN"
    using nn hin i by auto
  ultimately have "?k h = ?k (xs ! i)"
    using num_lt_total by blast
  then have same: "probability h = probability (xs ! i)"
    using \<open>?k h \<noteq> NaN\<close> to_number_inj by blast
  have "filter (\<lambda>c. probability c = probability (xs ! i)) xs =
        filter (\<lambda>c. probability c = probability (xs ! i)) ?s"
    by (rule filter_array_sort [symmetric])
  then have "hd (filter (\<lambda>c. probability c = probability (xs ! i)) xs) = h"
    using same by (simp add: s)
  moreover have "hd (filter (\<lambda>c. probability c = probability (xs ! i)) xs) = xs ! i"
    using i first by (intro hd_filter_first) auto
  ultimately show ?thesis using s by simp
qed

lemma class_results_zip:
  assumes "length ps = length cs"
  shows "map (class_result ps) (enumerate 0 cs) = map (\<lambda>(n, p). entry n p) (zip cs ps)"
proof (rule nth_equalityI)
  show "length (map (class_result ps) (enumerate 0 cs)) = length (map (\<lambda>(n, p). entry n p) (zip cs ps))"
    using assms by simp
next
  fix i
  assume "i < length (map (class_result ps) (enumerate 0 cs))"
  then have i: "i < length cs" by simp
  then show "map (class_result ps) (enumerate 0 cs) ! i = map (\<lambda>(n, p). entry n p) (zip cs ps) ! i"
    using assms by (simp add: nth_enumerate_eq class_result_def entry_def elem_at_def to_number_def)
qed


section \<open>Strings\<close>

lemma startsWith_append: "startsWith (p @ s) p"
  by (induction p) auto

lemma str_includes_prefix: "str_includes (p @ s) p"
  by (cases "p @ s") (auto simp: startsWith_append dest: sym)

lemma str_includes_append: "str_includes s p \<Longrightarrow> str_includes (a @ s) p"
  by (induction a) auto

section \<open>The example request\<close>

lemma started_world_fields:
  "live started_world = {}" "next_id started_world = 0" "calls started_world = []"
  "console started_world = []"
  by (simp_all add: started_world_def new_ModelService_def new_array_def ex_world_def)

lemma ex_pixels_facts:
  "length ex_pixels = 3072" "set ex_pixels = {Fin 0, Fin 51, Fin 255}"
  "\<forall>v\<in>set ex_pixels. is_pixel v"
  by (simp_all add: ex_pixels_def is_pixel_def length_concat sum_list_replicate)

text \<open>The example image passes validation.\<close>

lemma ex_validate:
  "validateImage ex_library (buffer ex_file) w =
     (Inr \<lparr>width = 500, height = 400, format = ''png'', size' = 4, channels = 3\<rparr>, w)"
  by (simp add: validateImage_def ex_library_def ex_file_def falsy_nat_def falsy_string_def
      template_string_def supportedFormats_def)

text \<open>The example run of \<open>preprocessImage\<close>.\<close>

lemma ex_preprocess:
  "fst (preprocessImage ex_library (buffer ex_file) w) =
     Inr \<lparr>tid = next_id w + 4, shape = [1, 32, 32, 3],
          vals = map (\<lambda>v. num_div v (255 / 2)) (map (\<lambda>v. num_sub v (Fin (255 / 2))) ex_pixels)\<rparr>"
  "next_id (snd (preprocessImage ex_library (buffer ex_file) w)) = next_id w + 5"
  by (simp_all add: preprocessImage_def ex_library_def ex_file_def alloc_def dispose_def
      tf_sub_def tf_div_def tf_expandDims_def TARGET_WIDTH_def TARGET_HEIGHT_def Let_def)

lemma ex_preprocess_live:
  "live (snd (preprocessImage ex_library (buffer ex_file) w)) =
     (live w - {next_id w, next_id w + 1, next_id w + 3}) \<union> {next_id w + 2, next_id w + 4}"
  by (auto simp: preprocessImage_def ex_library_def ex_file_def alloc_def dispose_def
      tf_sub_def tf_div_def tf_expandDims_def TARGET_WIDTH_def TARGET_HEIGHT_def Let_def)

section \<open>The request handler without a file or without a model\<close>

text \<open>What each service method leaves untouched.\<close>

lemma validateImage_frame:
  assumes "validateImage lib b w = (r, w')"
  shows "calls w' = calls w \<and> arrays w' = arrays w \<and> next_ref w' = next_ref w
       \<and> live w' = live w \<and> next_id w' = next_id w"
  using assms
  by (auto simp: validateImage_def validation_failed_def console_error_def
      split: sum.splits if_splits)

lemma preprocessImage_frame:
  assumes "preprocessImage lib b w = (r, w')"
  shows "calls w' = calls w \<and> arrays w' = arrays w \<and> next_ref w' = next_ref w"
  using assms
  by (auto simp: preprocessImage_def preprocess_failed_def console_error_def alloc_def
      dispose_def tf_sub_def tf_div_def tf_expandDims_def Let_def
      split: sum.splits prod.splits)

lemma predict_frame:
  assumes "predict svc t w = (r, w')"
  shows "calls w' = calls w \<and> arrays w' = arrays w \<and> next_ref w' = next_ref w"
  using assms
  by (auto simp: predict_def prediction_failed_def console_error_def alloc_def
      dispose_def Let_def split: sum.splits prod.splits option.splits)

lemma classification_error_frame:
  assumes "classification_error clk e w = (r, w')"
  shows "calls w' = calls w \<and> arrays w' = arrays w \<and> next_ref w' = next_ref w
       \<and> live w' = live w \<and> next_id w' = next_id w"
  using assms
  by (auto simp: classification_error_def console_error_def Let_def split: if_splits)

text \<open>
  A handler that gets past both checks does enter \<open>validateImage\<close>: the ghost
  field really records the calls.
\<close>

lemma classify_enters_validateImage:
  assumes "req_file req = Some f" "isModelLoaded modelService"
  shows "ValidateImage \<in> set (calls (snd (classifyImage lib clk modelService req w)))"
proof -
  obtain r1 w1 where v: "validateImage lib (buffer f) (called ValidateImage w) = (r1, w1)"
    by force
  then have c1: "ValidateImage \<in> set (calls w1)"
    using validateImage_frame [OF v] by (simp add: called_def)
  show ?thesis
  proof (cases r1)
    case (Inl e)
    obtain r w' where "classification_error clk e w1 = (r, w')" by force
    then show ?thesis
      using assms v Inl c1 classification_error_frame [of clk e w1 r w']
      by (simp add: classifyImage_def)
  next
    case (Inr imageMetadata)
    let ?w2 = "console_log ''Processing image:''
                 [(''originalName'', originalname f), (''size'', nat_digits (file_size f)),
                  (''mimetype'', mimetype f), (''dimensions'', dimensions imageMetadata)] w1"
    obtain r3 w3 where p: "preprocessImage lib (buffer f) (called PreprocessImage ?w2) = (r3, w3)"
      by force
    have c3: "ValidateImage \<in> set (calls w3)"
      using preprocessImage_frame [OF p] c1 by (simp add: called_def console_log_def)
    show ?thesis
    proof (cases r3)
      case (Inl e)
      obtain r w' where "classification_error clk e w3 = (r, w')" by force
      then show ?thesis
        using assms v p Inr Inl c3 classification_error_frame [of clk e w3 r w']
        by (simp add: classifyImage_def)
    next
      case (Inr t)
      obtain r4 w4 where q: "predict modelService t (called Predict w3) = (r4, w4)"
        by force
      have c4: "ValidateImage \<in> set (calls w4)"
        using predict_frame [OF q] c3 by (simp add: called_def)
      show ?thesis
      proof (cases r4)
        case (Inl e)
        obtain r w' where "classification_error clk e w4 = (r, w')" by force
        then show ?thesis
          using assms v p q \<open>r1 = Inr imageMetadata\<close> Inr Inl c4
            classification_error_frame [of clk e w4 r w']
          by (simp add: classifyImage_def)
      next
        case (Inr prediction)
        then show ?thesis
          using assms v p q \<open>r1 = Inr imageMetadata\<close> \<open>r3 = Inr t\<close> c4
          by (simp add: classifyImage_def dispose_def)
      qed
    qed
  qed
qed

text \<open>
  Claim C6. A request without an image file is answered with status 400, and the
  world after the handler is the world before it: no call of \<open>validateImage\<close>,
  \<open>preprocessImage\<close> or \<open>predict\<close> is recorded, no tensor is created and nothing
  is logged. This holds for every state of the model service, so the check for the
  file comes before the check that the model is loaded: a missing file gives 400 also
  when no model is loaded.
\<close>

theorem no_file_responds_400:
  assumes "req_file req = None"
  shows "status (fst (classifyImage lib clk modelService req w)) = 400
       \<and> snd (classifyImage lib clk modelService req w) = w"
  using assms by (simp add: classifyImage_def)

theorem no_file_responds_400_witness:
  "req_file no_file_request = None
   \<and> \<not> isModelLoaded ex_service
   \<and> status (fst (classifyImage ex_library ex_clock ex_service no_file_request started_world)) = 400
   \<and> calls (snd (classifyImage ex_library ex_clock ex_service no_file_request started_world)) = []
   \<and> live (snd (classifyImage ex_library ex_clock ex_service no_file_request started_world)) = {}"
proof -
  have none: "req_file no_file_request = None"
    by (simp add: no_file_request_def)
  have "\<not> isModelLoaded ex_service"
    by (simp add: isModelLoaded_def ex_service_def new_ModelService_def new_array_def)
  moreover have "calls started_world = []" "live started_world = {}"
    by (simp_all add: started_world_def new_ModelService_def new_array_def ex_world_def)
  ultimately show ?thesis
    using none no_file_responds_400 [OF none, of ex_library ex_clock ex_service started_world]
    by simp
qed

text \<open>
  Claim C7. When no model is loaded, \<open>predict\<close> throws the error "Model not loaded"
  and leaves the world as it was (no inference, no tensor); the handler's
  \<open>catch\<close> block answers that error with 503; and a request that carries a file is
  answered with 503, by the handler's own check, before any service method runs.
\<close>

theorem model_not_loaded:
  assumes "model svc = None"
  shows "predict svc preprocessedImage w =
           (Inl (Error ''Model not loaded. Call loadModel() first.''), w)
       \<and> status (fst (classification_error clk
                   (Error ''Model not loaded. Call loadModel() first.'') w)) = 503
       \<and> (req_file req \<noteq> None \<longrightarrow>
            status (fst (classifyImage lib clk svc req w)) = 503
            \<and> snd (classifyImage lib clk svc req w) = w)"
proof -
  have "predict svc preprocessedImage w =
          (Inl (Error ''Model not loaded. Call loadModel() first.''), w)"
    using assms by (simp add: predict_def)
  moreover have "status (fst (classification_error clk
                   (Error ''Model not loaded. Call loadModel() first.'') w)) = 503"
    by (simp add: classification_error_def Let_def)
  moreover have "req_file req \<noteq> None \<longrightarrow>
            status (fst (classifyImage lib clk svc req w)) = 503
            \<and> snd (classifyImage lib clk svc req w) = w"
    using assms by (auto simp: classifyImage_def isModelLoaded_def)
  ultimately show ?thesis by simp
qed

theorem model_not_loaded_witness:
  "model ex_service = None
   \<and> req_file ex_request \<noteq> None
   \<and> predict ex_service ex_tensor started_world =
       (Inl (Error ''Model not loaded. Call loadModel() first.''), started_world)
   \<and> status (fst (classifyImage ex_library ex_clock ex_service ex_request started_world)) = 503"
proof -
  have none: "model ex_service = None"
    by (simp add: ex_service_def new_ModelService_def new_array_def)
  have "req_file ex_request \<noteq> None"
    by (simp add: ex_request_def)
  then show ?thesis
    using none
      model_not_loaded [OF none, of ex_tensor started_world ex_clock ex_request ex_library]
    by simp
qed


section \<open>validateImage\<close>

lemma join_supported:
  "join '', '' supportedFormats = ''jpeg, jpg, png, webp, gif, bmp''"
  by (simp add: supportedFormats_def)

lemma falsy_nat_iff: "falsy_nat x \<longleftrightarrow> x \<in> {None, Some 0}"
  by (cases x) (auto simp: falsy_nat_def)

lemma unsupported_iff:
  "falsy_string f \<or> template_string f \<notin> set supportedFormats \<longleftrightarrow>
     f \<notin> Some ` {''jpeg'', ''jpg'', ''png'', ''webp'', ''gif'', ''bmp''}"
  by (cases f) (auto simp: falsy_string_def template_string_def supportedFormats_def)

lemma supported_iff:
  "\<not> (falsy_string f \<or> template_string f \<notin> set supportedFormats) \<longleftrightarrow>
     f \<in> Some ` {''jpeg'', ''jpg'', ''png'', ''webp'', ''gif'', ''bmp''}"
  by (cases f) (auto simp: falsy_string_def template_string_def supportedFormats_def)

text \<open>The outcomes of \<open>validateImage\<close>, case by case.\<close>

lemma validateImage_cases:
  assumes "validateImage lib imageBuffer w = (r, w')"
  shows "(isl r \<longleftrightarrow> dimensions_undetermined lib imageBuffer \<or> format_unsupported lib imageBuffer)
       \<and> (\<forall>e. r = Inl e \<longrightarrow> (\<exists>cause. e = Error (''Image validation failed: '' @ cause)))
       \<and> (\<forall>e metadata fmt. r = Inl e \<and> \<not> dimensions_undetermined lib imageBuffer
              \<and> sharp_metadata_of lib imageBuffer = Inr metadata \<and> md_format metadata = Some fmt \<longrightarrow>
            (\<exists>before. e = Error (before @ ''Unsupported image format: '' @ fmt
                                   @ ''. Supported: jpeg, jpg, png, webp, gif, bmp'')))
       \<and> (\<forall>m. r = Inr m \<longrightarrow>
            w' = w
            \<and> (\<exists>metadata. sharp_metadata_of lib imageBuffer = Inr metadata
                  \<and> md_width metadata = Some (width m) \<and> md_height metadata = Some (height m)
                  \<and> md_format metadata = Some (format m) \<and> size' m = length imageBuffer
                  \<and> channels m = (if md_channels metadata \<in> {None, Some 0} then 3
                                   else the (md_channels metadata))))"
proof (cases "sharp_metadata_of lib imageBuffer")
  case (Inl e)
  with assms show ?thesis
    by (auto simp: validateImage_def validation_failed_def dimensions_undetermined_def
        format_unsupported_def)
next
  case (Inr metadata)
  show ?thesis
  proof (cases "falsy_nat (md_width metadata) \<or> falsy_nat (md_height metadata)")
    case True
    with assms Inr show ?thesis
      by (auto simp: validateImage_def validation_failed_def dimensions_undetermined_def
          falsy_nat_iff)
  next
    case dims: False
    show ?thesis
    proof (cases "falsy_string (md_format metadata)
                  \<or> template_string (md_format metadata) \<notin> set supportedFormats")
      case True
      have un: "md_format metadata \<notin> Some ` {''jpeg'', ''jpg'', ''png'', ''webp'', ''gif'', ''bmp''}"
        by (rule unsupported_iff [THEN iffD1, OF True])
      have r: "r = Inl (Error (''Image validation failed: '' @ ''Error: '' @
                 ''Unsupported image format: '' @ template_string (md_format metadata)
                  @ ''. Supported: '' @ join '', '' supportedFormats))"
        using assms Inr dims True
        by (simp add: validateImage_def validation_failed_def error_string_def)
      have named: "\<exists>before. e = Error (before @ ''Unsupported image format: '' @ fmt
                                   @ ''. Supported: jpeg, jpg, png, webp, gif, bmp'')"
        if "r = Inl e" "md_format metadata = Some fmt" for e fmt
      proof -
        have "e = Error ((''Image validation failed: '' @ ''Error: '') @
                 ''Unsupported image format: '' @ fmt
                  @ ''. Supported: jpeg, jpg, png, webp, gif, bmp'')"
          using r that by (simp add: template_string_def join_supported)
        then show ?thesis by blast
      qed
      have "isl r" using r by simp
      moreover have "format_unsupported lib imageBuffer"
        using Inr un by (simp add: format_unsupported_def)
      moreover have "\<exists>cause. e = Error (''Image validation failed: '' @ cause)" if "r = Inl e" for e
        using r that by blast
      moreover have "r \<noteq> Inr m" for m using r by simp
      ultimately show ?thesis
        using named Inr by auto
    next
      case False
      have ok: "md_format metadata \<in> Some ` {''jpeg'', ''jpg'', ''png'', ''webp'', ''gif'', ''bmp''}"
        by (rule supported_iff [THEN iffD1, OF False])
      have r: "r = Inr \<lparr>width = the (md_width metadata), height = the (md_height metadata),
                     format = template_string (md_format metadata),
                     size' = length imageBuffer,
                     channels = (if falsy_nat (md_channels metadata) then 3
                                 else the (md_channels metadata))\<rparr>" and w: "w' = w"
        using assms Inr dims False by (simp_all add: validateImage_def)
      have d: "\<not> dimensions_undetermined lib imageBuffer"
        using Inr dims by (simp add: dimensions_undetermined_def falsy_nat_iff)
      have f: "\<not> format_unsupported lib imageBuffer"
        using Inr ok by (simp add: format_unsupported_def)
      have wd: "md_width metadata = Some (the (md_width metadata))"
        "md_height metadata = Some (the (md_height metadata))"
        using dims by (auto simp: falsy_nat_def split: option.splits)
      have fm: "md_format metadata = Some (template_string (md_format metadata))"
        using ok by (auto simp: template_string_def)
      show ?thesis
        using r w d f wd fm Inr by (auto simp: falsy_nat_iff)
    qed
  qed
qed


text \<open>The handler answers an error of \<open>validateImage\<close> with 400.\<close>

lemma validation_error_400:
  "status (fst (classification_error clk (Error (''Image validation failed: '' @ cause)) w)) = 400"
proof -
  have "str_includes (''Image validation failed'' @ ('': '' @ cause)) ''Image validation failed''"
    by (rule str_includes_prefix)
  then show ?thesis
    by (simp add: classification_error_def Let_def)
qed

text \<open>
  Claim C8. \<open>validateImage\<close> fails exactly when the dimensions cannot be determined
  (sharp cannot read the metadata at all, or reports no width or no height) or the
  detected format is not one of jpeg, jpg, png, webp, gif, bmp. Every failure is an
  error whose message starts with "Image validation failed: ", which the
  handler answers with 400 "Invalid image"; when the dimensions
  are known and the format is rejected, the message names that format. On success
  the result holds the decoded width, height and format, the buffer's length and
  the channel count (3 when sharp reports none), and the world is unchanged: no
  tensor, no array, no console output.
\<close>

theorem validateImage_outcome:
  assumes "validateImage lib imageBuffer w = (r, w')"
  shows "(isl r \<longleftrightarrow> dimensions_undetermined lib imageBuffer \<or> format_unsupported lib imageBuffer)
       \<and> (\<forall>e. r = Inl e \<longrightarrow> (\<exists>cause. e = Error (''Image validation failed: '' @ cause)))
       \<and> (\<forall>e metadata fmt. r = Inl e \<and> \<not> dimensions_undetermined lib imageBuffer
              \<and> sharp_metadata_of lib imageBuffer = Inr metadata \<and> md_format metadata = Some fmt \<longrightarrow>
            (\<exists>before. e = Error (before @ ''Unsupported image format: '' @ fmt
                                   @ ''. Supported: jpeg, jpg, png, webp, gif, bmp'')))
       \<and> (\<forall>m. r = Inr m \<longrightarrow>
            w' = w
            \<and> (\<exists>metadata. sharp_metadata_of lib imageBuffer = Inr metadata
                  \<and> md_width metadata = Some (width m) \<and> md_height metadata = Some (height m)
                  \<and> md_format metadata = Some (format m) \<and> size' m = length imageBuffer
                  \<and> channels m = (if md_channels metadata \<in> {None, Some 0} then 3
                                   else the (md_channels metadata))))
       \<and> (\<forall>e clk w0. r = Inl e \<longrightarrow> status (fst (classification_error clk e w0)) = 400)"
proof -
  have "\<forall>e clk w0. r = Inl e \<longrightarrow> status (fst (classification_error clk e w0)) = 400"
  proof (intro allI impI)
    fix e clk w0
    assume "r = Inl e"
    then obtain cause where "e = Error (''Image validation failed: '' @ cause)"
      using validateImage_cases [OF assms] by blast
    then show "status (fst (classification_error clk e w0)) = 400"
      by (simp only: validation_error_400)
  qed
  then show ?thesis
    using validateImage_cases [OF assms] by (intro conjI) blast+
qed

theorem validateImage_outcome_witness:
  "validateImage ex_library (buffer ex_file) started_world =
     (Inr \<lparr>width = 500, height = 400, format = ''png'', size' = 4, channels = 3\<rparr>, started_world)
   \<and> \<not> dimensions_undetermined ex_library (buffer ex_file)
   \<and> \<not> format_unsupported ex_library (buffer ex_file)
   \<and> fst (validateImage tiff_library (buffer ex_file) started_world) =
       Inl (Error ''Image validation failed: Error: Unsupported image format: tiff. Supported: jpeg, jpg, png, webp, gif, bmp'')
   \<and> format_unsupported tiff_library (buffer ex_file)"
proof -
  have ok: "validateImage ex_library (buffer ex_file) started_world =
     (Inr \<lparr>width = 500, height = 400, format = ''png'', size' = 4, channels = 3\<rparr>, started_world)"
    by (simp add: validateImage_def ex_library_def ex_file_def falsy_nat_def falsy_string_def
        template_string_def supportedFormats_def)
  have bad: "validateImage tiff_library (buffer ex_file) started_world =
     (Inl (Error ''Image validation failed: Error: Unsupported image format: tiff. Supported: jpeg, jpg, png, webp, gif, bmp''),
      console_error ''Error validating image:''
        ''Error: Unsupported image format: tiff. Supported: jpeg, jpg, png, webp, gif, bmp''
        started_world)"
    by (simp add: validateImage_def tiff_library_def ex_library_def ex_file_def falsy_nat_def
        falsy_string_def template_string_def supportedFormats_def validation_failed_def
        error_string_def)
  have known: "\<not> dimensions_undetermined tiff_library (buffer ex_file)"
    by (simp add: dimensions_undetermined_def tiff_library_def ex_library_def)
  have "isl (fst (validateImage tiff_library (buffer ex_file) started_world))"
    using bad by simp
  then have "format_unsupported tiff_library (buffer ex_file)"
    using validateImage_outcome [OF bad] known by simp
  moreover have "\<not> dimensions_undetermined ex_library (buffer ex_file)
      \<and> \<not> format_unsupported ex_library (buffer ex_file)"
    using validateImage_outcome [OF ok] by simp
  ultimately show ?thesis
    using ok bad by simp
qed

section \<open>getClasses\<close>

text \<open>The constructor establishes what the theorem on \<open>getClasses\<close> asks for.\<close>

lemma new_ModelService_classes:
  assumes "new_ModelService path w = (svc, w')"
  shows "arrays w' (classes svc) = Some class_names \<and> classes svc < next_ref w'"
  using assms by (auto simp: new_ModelService_def new_array_def)

text \<open>
  Claim C9. \<open>getClasses\<close> returns a new array holding the ten class names in
  their fixed order. The new array is not the service's own: whatever is written
  through the returned reference, the service's array still holds the ten names, the
  conditions of this theorem hold again, and the next call of \<open>getClasses\<close> returns
  the ten names again.
\<close>

theorem getClasses_returns_copy:
  assumes "arrays w (classes svc) = Some class_names" "classes svc < next_ref w"
  shows "read_array (snd (getClasses svc w)) (fst (getClasses svc w)) = class_names
       \<and> class_names =
           [''plane'', ''car'', ''bird'', ''cat'', ''deer'', ''dog'', ''frog'', ''horse'', ''ship'',
            ''truck'']
       \<and> fst (getClasses svc w) \<noteq> classes svc
       \<and> (\<forall>xs. arrays (write_array (fst (getClasses svc w)) xs (snd (getClasses svc w)))
                   (classes svc) = Some class_names
              \<and> classes svc
                  < next_ref (write_array (fst (getClasses svc w)) xs (snd (getClasses svc w)))
              \<and> read_array
                   (snd (getClasses svc
                           (write_array (fst (getClasses svc w)) xs (snd (getClasses svc w)))))
                   (fst (getClasses svc
                           (write_array (fst (getClasses svc w)) xs (snd (getClasses svc w)))))
                 = class_names)"
  using assms
  by (auto simp: getClasses_def new_array_def read_array_def write_array_def class_names_def)

theorem getClasses_returns_copy_witness:
  "arrays started_world (classes ex_service) = Some class_names
   \<and> classes ex_service < next_ref started_world
   \<and> read_array (snd (getClasses ex_service started_world))
        (fst (getClasses ex_service started_world))
      = [''plane'', ''car'', ''bird'', ''cat'', ''deer'', ''dog'', ''frog'', ''horse'', ''ship'', ''truck'']
   \<and> read_array
        (write_array (fst (getClasses ex_service started_world)) [''mutated'']
           (snd (getClasses ex_service started_world)))
        (classes ex_service)
      = [''plane'', ''car'', ''bird'', ''cat'', ''deer'', ''dog'', ''frog'', ''horse'', ''ship'', ''truck'']"
proof -
  have inv: "arrays started_world (classes ex_service) = Some class_names"
    "classes ex_service < next_ref started_world"
    by (simp_all add: started_world_def ex_service_def new_ModelService_def new_array_def)
  have names: "class_names =
      [''plane'', ''car'', ''bird'', ''cat'', ''deer'', ''dog'', ''frog'', ''horse'', ''ship'', ''truck'']"
    by (simp add: class_names_def)
  show ?thesis
    using inv getClasses_returns_copy [OF inv] unfolding names [symmetric]
    by (simp add: read_array_def)
qed


section \<open>predict\<close>

text \<open>What \<open>predict\<close> returns once the index of the greatest probability is known.\<close>

lemma predict_loaded:
  assumes "model svc = Some m" "m img = Inr (sh, ps)"
    "indexOf ps (Math_max ps) = int i" "i < length ps"
  shows "fst (predict svc img w) =
     Inr \<lparr>predictedClass = elem_at (read_array w (classes svc)) (int i),
          confidence = Number_toFixed 4 (ps ! i),
          confidencePercentage = toFixed 2 (num_mul (ps ! i) (Fin 100)),
          allPredictions =
            array_sort by_probability
              (map (class_result ps) (enumerate 0 (read_array w (classes svc))))\<rparr>"
  using assms
  by (simp add: predict_def alloc_def dispose_def read_array_def elem_at_def Let_def)

lemma indexOf_from_found:
  "indexOf_from ps v k \<noteq> - 1 \<Longrightarrow> \<exists>x\<in>set ps. strict_eq x v"
  by (induction ps arbitrary: k) (auto split: if_splits)

text \<open>A returned result was computed from a vector without \<open>NaN\<close>.\<close>

lemma predict_returned:
  assumes "predict svc img w = (Inr res, w')" "model svc = Some m" "m img = Inr (sh, ps)"
  shows "allPredictions res =
           array_sort by_probability
             (map (class_result ps) (enumerate 0 (read_array w (classes svc))))
       \<and> NaN \<notin> set ps"
proof -
  obtain c where c: "elem_at ps (indexOf ps (Math_max ps)) = Some c"
    using assms
    by (auto simp: predict_def alloc_def dispose_def prediction_failed_def Let_def
        split: option.splits)
  then have "indexOf_from ps (Math_max ps) 0 \<noteq> - 1"
    by (auto simp: elem_at_def indexOf_def split: if_splits)
  then obtain x where "x \<in> set ps" "strict_eq x (Math_max ps)"
    using indexOf_from_found by blast
  then have "Math_max ps \<noteq> NaN" by (auto simp: strict_eq_def)
  then have "NaN \<notin> set ps" by (auto simp: Math_max_def)
  moreover have "allPredictions res =
           array_sort by_probability
             (map (class_result ps) (enumerate 0 (read_array w (classes svc))))"
    using assms c
    by (auto simp: predict_def alloc_def dispose_def read_array_def Let_def)
  ultimately show ?thesis by simp
qed

lemma first_maximum_exists:
  assumes "\<exists>m\<in>set ps. \<forall>x\<in>set ps. num_le x m"
  shows "\<exists>i<length ps. (\<forall>j<length ps. num_le (ps ! j) (ps ! i)) \<and> (\<forall>j<i. ps ! j \<noteq> ps ! i)"
proof -
  obtain m where m: "m \<in> set ps" "\<forall>x\<in>set ps. num_le x m"
    using assms by blast
  let ?P = "\<lambda>i. i < length ps \<and> ps ! i = m"
  have ex: "\<exists>i. ?P i" using m(1) by (auto simp: in_set_conv_nth)
  let ?i = "LEAST i. ?P i"
  have i: "?P ?i" using ex by (rule LeastI_ex)
  have "ps ! j \<noteq> ps ! ?i" if "j < ?i" for j
  proof -
    have "\<not> ?P j" using that by (rule not_less_Least)
    moreover have "j < length ps" using that i by simp
    ultimately show ?thesis using i by simp
  qed
  moreover have "num_le (ps ! j) (ps ! ?i)" if "j < length ps" for j
    using m(2) i that by simp
  ultimately show ?thesis using i by blast
qed

lemma classNames_of_filtered:
  "map className (filter (\<lambda>c. probability c = Some v) (map (\<lambda>(n, p). entry n p) zs)) =
     map fst (filter (\<lambda>(n, p). p = v) zs)"
  by (induction zs) (auto simp: entry_def)

lemma status_classification_error:
  "status (fst (classification_error clk e w)) \<in> {400, 503, 500}"
  by (simp add: classification_error_def Let_def)

text \<open>A response with status 200 carries the \<open>result\<close> object of a prediction.\<close>

lemma classifyImage_success:
  assumes "classifyImage lib clk svc req w = (resp, w')" "status resp = 200"
  shows "\<exists>prediction t w3 w4 oi pr ts.
           predict svc t w3 = (Inr prediction, w4) \<and> arrays w3 = arrays w
           \<and> body resp = Success (result_of prediction) oi pr ts"
proof -
  have no: "fst (classification_error clk e w0) \<noteq> resp" for e w0
    using status_classification_error [of clk e w0] assms(2) by auto
  obtain f where f: "req_file req = Some f"
    using assms by (cases "req_file req") (auto simp: classifyImage_def)
  have loaded: "isModelLoaded svc"
    using assms f by (auto simp: classifyImage_def split: if_splits)
  obtain r1 w1 where v: "validateImage lib (buffer f) (called ValidateImage w) = (r1, w1)"
    by force
  have a1: "arrays w1 = arrays w"
    using validateImage_frame [OF v] by (simp add: called_def)
  show ?thesis
  proof (cases r1)
    case (Inl e)
    then show ?thesis
      using assms(1) f loaded v no [of e w1]
      by (auto simp: classifyImage_def)
  next
    case r1: (Inr imageMetadata)
    let ?w2 = "console_log ''Processing image:''
                 [(''originalName'', originalname f), (''size'', nat_digits (file_size f)),
                  (''mimetype'', mimetype f), (''dimensions'', dimensions imageMetadata)] w1"
    obtain r3 w3 where p: "preprocessImage lib (buffer f) (called PreprocessImage ?w2) = (r3, w3)"
      by force
    have a3: "arrays w3 = arrays w"
      using preprocessImage_frame [OF p] a1 by (simp add: called_def console_log_def)
    show ?thesis
    proof (cases r3)
      case (Inl e)
      then show ?thesis
        using assms(1) f loaded v r1 p no [of e w3]
        by (auto simp: classifyImage_def)
    next
      case r3: (Inr t)
      obtain r4 w4 where q: "predict svc t (called Predict w3) = (r4, w4)"
        by force
      show ?thesis
      proof (cases r4)
        case (Inl e)
        then show ?thesis
          using assms(1) f loaded v r1 p r3 q no [of e w4]
          by (auto simp: classifyImage_def)
      next
        case (Inr prediction)
        have "arrays (called Predict w3) = arrays w"
          using a3 by (simp add: called_def)
        moreover have "\<exists>oi pr ts. body resp = Success (result_of prediction) oi pr ts"
          using assms(1) f loaded v r1 p r3 q Inr
          by (auto simp: classifyImage_def)
        ultimately show ?thesis
          using q Inr by blast
      qed
    qed
  qed
qed


text \<open>
  Claim C3. Let the model be loaded and return a vector \<open>ps\<close> of ten
  probabilities, and let index \<open>i\<close> hold a greatest value of \<open>ps\<close> that no earlier
  index holds. Then \<open>predict\<close> returns a result and its \<open>predictedClass\<close> is the
  class name at index \<open>i\<close>. A unique maximum at \<open>i\<close> is such an index; when the
  maximum is tied between several indices, the lowest of them is.
\<close>

theorem predictedClass_first_maximum:
  assumes "model svc = Some m" "m img = Inr (sh, ps)" "length ps = 10"
    and "arrays w (classes svc) = Some classNames" "length classNames = 10"
    and "i < 10" "\<forall>x\<in>set ps. num_le x (ps ! i)" "ps ! i \<notin> set (take i ps)"
  shows "\<exists>res w'. predict svc img w = (Inr res, w')
           \<and> predictedClass res = Some (classNames ! i)"
proof -
  have top: "\<forall>j<length ps. num_le (ps ! j) (ps ! i)"
    using assms(7) by simp
  have first: "\<forall>j<i. ps ! j \<noteq> ps ! i"
  proof (intro allI impI)
    fix j assume j: "j < i"
    then have "take i ps ! j \<in> set (take i ps)"
      using assms(3,6) by (intro nth_mem) simp
    then have "ps ! j \<in> set (take i ps)" using j by simp
    then show "ps ! j \<noteq> ps ! i" using assms(8) by metis
  qed
  have idx: "indexOf ps (Math_max ps) = int i"
    using assms(3,6) top first by (intro indexOf_Math_max) simp_all
  obtain res where res: "fst (predict svc img w) = Inr res"
    "predictedClass res = elem_at (read_array w (classes svc)) (int i)"
    using predict_loaded [OF assms(1,2) idx, of w] assms(3,6) by simp
  have "predictedClass res = Some (classNames ! i)"
    using res(2) assms(4,5,6) by (simp add: read_array_def elem_at_def)
  moreover have "predict svc img w = (Inr res, snd (predict svc img w))"
    using res(1) by (metis prod.collapse)
  ultimately show ?thesis by blast
qed

theorem predictedClass_first_maximum_witness:
  "\<exists>res w'. predict loaded_service ex_tensor started_world = (Inr res, w')
      \<and> predictedClass res = Some ''car''"
proof -
  have a: "model loaded_service = Some ex_model"
    by (simp add: loaded_service_def)
  have b: "ex_model ex_tensor = Inr ([1, 10], ex_probabilities)"
    by (simp add: ex_model_def)
  have c: "length ex_probabilities = 10"
    by (simp add: ex_probabilities_def)
  have d: "arrays started_world (classes loaded_service) = Some class_names"
    by (simp add: started_world_def loaded_service_def ex_service_def new_ModelService_def
        new_array_def)
  have e: "length class_names = 10"
    by (simp add: class_names_def)
  have f: "(1::nat) < 10" by simp
  have g: "\<forall>x\<in>set ex_probabilities. num_le x (ex_probabilities ! 1)"
    by (simp add: ex_probabilities_def num_le_def strict_eq_def)
  have h: "ex_probabilities ! 1 \<notin> set (take 1 ex_probabilities)"
    by (simp add: ex_probabilities_def)
  have "class_names ! 1 = ''car''"
    by (simp add: class_names_def)
  then show ?thesis
    using predictedClass_first_maximum [OF a b c d e f g h] by simp
qed


lemma class_results_not_NaN:
  assumes "length ps = length cs" "NaN \<notin> set ps"
  shows "\<forall>y\<in>set (map (class_result ps) (enumerate 0 cs)). to_number (probability y) \<noteq> NaN"
proof -
  have "to_number (probability (entry n p)) \<noteq> NaN" if "(n, p) \<in> set (zip cs ps)" for n p
    using that assms(2) by (auto simp: entry_def to_number_def dest: set_zip_rightD)
  then show ?thesis
    unfolding class_results_zip [OF assms(1)] by auto
qed

text \<open>
  The handler's answer when validation, preprocessing and prediction all succeed.
\<close>

lemma classifyImage_returns_200:
  assumes "req_file req = Some f" "model svc = Some m"
    and "validateImage lib (buffer f) (called ValidateImage w0) = (Inr imageMetadata, w1)"
    and "preprocessImage lib (buffer f)
           (called PreprocessImage
              (console_log ''Processing image:''
                 [(''originalName'', originalname f), (''size'', nat_digits (file_size f)),
                  (''mimetype'', mimetype f), (''dimensions'', dimensions imageMetadata)] w1))
         = (Inr t, w3)"
    and "predict svc t (called Predict w3) = (Inr prediction, w4)"
  shows "classifyImage lib clk svc req w0 =
           (\<lparr>status = 200,
             body = Success (result_of prediction)
                      \<lparr>o_filename = originalname f, o_size = file_size f,
                       o_mimetype = mimetype f, o_dimensions = dimensions imageMetadata\<rparr>
                      \<lparr>p_timeMs = end_ms clk - start_ms clk, p_modelInputSize = ''32x32x3'',
                       p_normalization = ''Range [-1, 1]''\<rparr>
                      (iso_now clk)\<rparr>,
            dispose t w4)"
  using assms by (simp add: classifyImage_def isModelLoaded_def)

text \<open>
  Claim C4. Whenever \<open>predict\<close> returns a result for a vector of ten probabilities,
  \<open>allPredictions\<close> has ten entries, is sorted by probability with the highest
  first, and is stable: for every probability, the classes that have it stand in
  the order of the class list. The \<open>result\<close> object of the response holds the first
  five entries: a request whose image passes validation and preprocessing, and
  whose tensor is the one predicted on, is answered with status 200 and a body
  that carries exactly that \<open>result\<close> object. Conversely a response with status 200
  carries the \<open>result\<close> object of a prediction that \<open>predict\<close> returned.
\<close>

theorem allPredictions_sorted_stable:
  assumes "predict svc img w = (Inr res, w')" "model svc = Some m" "m img = Inr (sh, ps)"
    and "length ps = 10" "arrays w (classes svc) = Some classNames" "length classNames = 10"
  shows "length (allPredictions res) = 10
       \<and> descending (allPredictions res)
       \<and> (\<forall>v. map className (filter (\<lambda>c. probability c = Some v) (allPredictions res)) =
                map fst (filter (\<lambda>(name, p). p = v) (zip classNames ps)))
       \<and> r_allPredictions (result_of res) = take 5 (allPredictions res)
       \<and> length (r_allPredictions (result_of res)) = 5
       \<and> (\<forall>lib clk req f imageMetadata w0 w1 w3.
             req_file req = Some f
             \<and> validateImage lib (buffer f) (called ValidateImage w0) = (Inr imageMetadata, w1)
             \<and> preprocessImage lib (buffer f)
                 (called PreprocessImage
                    (console_log ''Processing image:''
                       [(''originalName'', originalname f), (''size'', nat_digits (file_size f)),
                        (''mimetype'', mimetype f), (''dimensions'', dimensions imageMetadata)]
                       w1))
                 = (Inr img, w3)
             \<and> w = called Predict w3 \<longrightarrow>
             classifyImage lib clk svc req w0 =
               (\<lparr>status = 200,
                 body = Success (result_of res)
                          \<lparr>o_filename = originalname f, o_size = file_size f,
                           o_mimetype = mimetype f, o_dimensions = dimensions imageMetadata\<rparr>
                          \<lparr>p_timeMs = end_ms clk - start_ms clk,
                           p_modelInputSize = ''32x32x3'',
                           p_normalization = ''Range [-1, 1]''\<rparr>
                          (iso_now clk)\<rparr>,
                dispose img w'))
       \<and> (\<forall>lib clk req wa resp wb.
             classifyImage lib clk svc req wa = (resp, wb) \<and> status resp = 200 \<longrightarrow>
             (\<exists>prediction t w3 w4 oi pr ts.
                predict svc t w3 = (Inr prediction, w4)
                \<and> body resp = Success (result_of prediction) oi pr ts))"
proof -
  let ?results = "map (class_result ps) (enumerate 0 classNames)"
  have len: "length ps = length classNames" using assms(4,6) by simp
  have sorted: "allPredictions res = array_sort by_probability ?results" and nn: "NaN \<notin> set ps"
    using predict_returned [OF assms(1,2,3)] assms(5) by (simp_all add: read_array_def)
  have l: "length (allPredictions res) = 10"
    using assms(6) by (simp add: sorted length_array_sort)
  have d: "descending (allPredictions res)"
    unfolding sorted using class_results_not_NaN [OF len nn] by (rule descending_array_sort)
  have st: "map className (filter (\<lambda>c. probability c = Some v) (allPredictions res)) =
              map fst (filter (\<lambda>(name, p). p = v) (zip classNames ps))" for v
    unfolding sorted filter_array_sort class_results_zip [OF len]
    by (rule classNames_of_filtered)
  have st': "\<forall>v. map className (filter (\<lambda>c. probability c = Some v) (allPredictions res)) =
              map fst (filter (\<lambda>(name, p). p = v) (zip classNames ps))"
    using st by (rule allI)
  have t: "r_allPredictions (result_of res) = take 5 (allPredictions res)"
    by (simp add: result_of_def)
  have t5: "length (r_allPredictions (result_of res)) = 5"
    using l by (simp add: t)
  have sent: "\<forall>lib clk req f imageMetadata w0 w1 w3.
             req_file req = Some f
             \<and> validateImage lib (buffer f) (called ValidateImage w0) = (Inr imageMetadata, w1)
             \<and> preprocessImage lib (buffer f)
                 (called PreprocessImage
                    (console_log ''Processing image:''
                       [(''originalName'', originalname f), (''size'', nat_digits (file_size f)),
                        (''mimetype'', mimetype f), (''dimensions'', dimensions imageMetadata)]
                       w1))
                 = (Inr img, w3)
             \<and> w = called Predict w3 \<longrightarrow>
             classifyImage lib clk svc req w0 =
               (\<lparr>status = 200,
                 body = Success (result_of res)
                          \<lparr>o_filename = originalname f, o_size = file_size f,
                           o_mimetype = mimetype f, o_dimensions = dimensions imageMetadata\<rparr>
                          \<lparr>p_timeMs = end_ms clk - start_ms clk,
                           p_modelInputSize = ''32x32x3'',
                           p_normalization = ''Range [-1, 1]''\<rparr>
                          (iso_now clk)\<rparr>,
                dispose img w')"
  proof (intro allI impI, elim conjE)
    fix lib :: library and clk :: clock and req :: request and f :: multer_file
      and imageMetadata :: ImageMetadata and w0 w1 w3 :: world
    assume f: "req_file req = Some f"
      and v: "validateImage lib (buffer f) (called ValidateImage w0) = (Inr imageMetadata, w1)"
      and p: "preprocessImage lib (buffer f)
                 (called PreprocessImage
                    (console_log ''Processing image:''
                       [(''originalName'', originalname f), (''size'', nat_digits (file_size f)),
                        (''mimetype'', mimetype f), (''dimensions'', dimensions imageMetadata)]
                       w1))
                 = (Inr img, w3)"
      and w: "w = called Predict w3"
    have q: "predict svc img (called Predict w3) = (Inr res, w')"
      using assms(1) w by simp
    show "classifyImage lib clk svc req w0 =
               (\<lparr>status = 200,
                 body = Success (result_of res)
                          \<lparr>o_filename = originalname f, o_size = file_size f,
                           o_mimetype = mimetype f, o_dimensions = dimensions imageMetadata\<rparr>
                          \<lparr>p_timeMs = end_ms clk - start_ms clk,
                           p_modelInputSize = ''32x32x3'',
                           p_normalization = ''Range [-1, 1]''\<rparr>
                          (iso_now clk)\<rparr>,
                dispose img w')"
      using f assms(2) v p q by (rule classifyImage_returns_200)
  qed
  have h: "\<forall>lib clk req wa resp wb.
             classifyImage lib clk svc req wa = (resp, wb) \<and> status resp = 200 \<longrightarrow>
             (\<exists>prediction t w3 w4 oi pr ts.
                predict svc t w3 = (Inr prediction, w4)
                \<and> body resp = Success (result_of prediction) oi pr ts)"
  proof (intro allI impI)
    fix lib clk req wa resp wb
    assume "classifyImage lib clk svc req wa = (resp, wb) \<and> status resp = 200"
    then have run: "classifyImage lib clk svc req wa = (resp, wb)" and ok: "status resp = 200"
      by simp_all
    have "\<exists>prediction t w3 w4 oi pr ts.
           predict svc t w3 = (Inr prediction, w4) \<and> arrays w3 = arrays wa
           \<and> body resp = Success (result_of prediction) oi pr ts"
      using run ok by (rule classifyImage_success)
    then obtain prediction t w3 w4 oi pr ts where
      "predict svc t w3 = (Inr prediction, w4)"
      "body resp = Success (result_of prediction) oi pr ts"
      by (elim exE conjE)
    then show "\<exists>prediction t w3 w4 oi pr ts.
                predict svc t w3 = (Inr prediction, w4)
                \<and> body resp = Success (result_of prediction) oi pr ts"
      by (intro exI conjI)
  qed
  show ?thesis
    by (intro conjI) (rule l d st' t t5 sent h)+
qed

text \<open>In the example vector the greatest value stands at indices 1 and 3.\<close>

lemma ex_index:
  "indexOf ex_probabilities (Math_max ex_probabilities) = int 1"
  by (simp add: ex_probabilities_def Math_max_def indexOf_def strict_eq_def)

lemma ex_sorted_names:
  "map className (take 5 (array_sort by_probability
      (map (class_result ex_probabilities) (enumerate 0 class_names))))
     = [''car'', ''cat'', ''horse'', ''plane'', ''bird'']"
  by (simp add: array_sort_def class_names_def ex_probabilities_def class_result_def
      elem_at_def to_number_def positive_by_probability)

lemma ex_dimensions:
  "dimensions \<lparr>width = 500, height = 400, format = ''png'', size' = 4, channels = 3\<rparr>
     = ''500x400''"
  by (simp add: dimensions_def nat_digits.simps digit_char_def)

theorem allPredictions_sorted_stable_witness:
  "\<exists>res w'. classifyImage ex_library ex_clock loaded_service ex_request started_world =
        (\<lparr>status = 200,
          body = Success (result_of res)
                   \<lparr>o_filename = ''cat.png'', o_size = 4, o_mimetype = ''image/png'',
                    o_dimensions = ''500x400''\<rparr>
                   \<lparr>p_timeMs = 30, p_modelInputSize = ''32x32x3'',
                    p_normalization = ''Range [-1, 1]''\<rparr>
                   ''2024-01-01T00:00:00.000Z''\<rparr>, w')
      \<and> length (allPredictions res) = 10
      \<and> descending (allPredictions res)
      \<and> map className (filter (\<lambda>c. probability c = Some (Fin (3 / 10))) (allPredictions res))
          = [''car'', ''cat'']
      \<and> map className (r_allPredictions (result_of res))
          = [''car'', ''cat'', ''horse'', ''plane'', ''bird'']"
proof -
  let ?md = "\<lparr>width = 500, height = 400, format = ''png'', size' = 4, channels = 3\<rparr>"
  let ?w1 = "called ValidateImage started_world"
  let ?w2 = "called PreprocessImage
              (console_log ''Processing image:''
                 [(''originalName'', originalname ex_file),
                  (''size'', nat_digits (file_size ex_file)),
                  (''mimetype'', mimetype ex_file), (''dimensions'', dimensions ?md)] ?w1)"
  let ?p = "preprocessImage ex_library (buffer ex_file) ?w2"
  define t where "t = \<lparr>tid = 4, shape = [1, 32, 32, 3],
            vals = map (\<lambda>v. num_div v (255 / 2))
                     (map (\<lambda>v. num_sub v (Fin (255 / 2))) ex_pixels)\<rparr>"
  define w3 where "w3 = snd ?p"
  have w2: "next_id ?w2 = 0" "arrays ?w2 = arrays started_world"
    by (simp_all add: called_def console_log_def started_world_fields)
  have f: "req_file ex_request = Some ex_file"
    by (simp add: ex_request_def)
  have v: "validateImage ex_library (buffer ex_file) ?w1 = (Inr ?md, ?w1)"
    by (rule ex_validate)
  have p: "?p = (Inr t, w3)"
    using ex_preprocess(1) [of ?w2] by (simp add: w2 prod_eq_iff t_def w3_def)
  have m: "model loaded_service = Some ex_model"
    by (simp add: loaded_service_def)
  have out: "ex_model t = Inr ([1, 10], ex_probabilities)"
    by (simp add: ex_model_def)
  have c: "length ex_probabilities = 10"
    by (simp add: ex_probabilities_def)
  have "arrays w3 = arrays started_world"
    using preprocessImage_frame [OF p] w2(2) by simp
  then have d: "arrays (called Predict w3) (classes loaded_service) = Some class_names"
    by (simp add: called_def started_world_def loaded_service_def ex_service_def
        new_ModelService_def new_array_def)
  have e: "length class_names = 10"
    by (simp add: class_names_def)
  obtain res where "fst (predict loaded_service t (called Predict w3)) = Inr res"
    using predict_loaded [OF m out ex_index, of "called Predict w3"] c by simp
  then have run: "predict loaded_service t (called Predict w3) =
      (Inr res, snd (predict loaded_service t (called Predict w3)))"
    by (simp add: prod_eq_iff)
  note all = allPredictions_sorted_stable [OF run m out c d e]
  have sorted: "allPredictions res = array_sort by_probability
      (map (class_result ex_probabilities) (enumerate 0 class_names))"
    using predict_returned [OF run m out] d by (simp add: read_array_def)
  have tie: "map fst (filter (\<lambda>(name, p). p = Fin (3 / 10)) (zip class_names ex_probabilities))
      = [''car'', ''cat'']"
    by (simp add: class_names_def ex_probabilities_def)
  have props: "length (allPredictions res) = 10 \<and> descending (allPredictions res)
      \<and> map className (filter (\<lambda>c. probability c = Some (Fin (3 / 10))) (allPredictions res))
          = [''car'', ''cat'']"
    using all tie by simp
  have top5: "map className (r_allPredictions (result_of res))
          = [''car'', ''cat'', ''horse'', ''plane'', ''bird'']"
    using all ex_sorted_names by (simp add: sorted)
  have pre: "req_file ex_request = Some ex_file
      \<and> validateImage ex_library (buffer ex_file) (called ValidateImage started_world)
          = (Inr ?md, ?w1)
      \<and> preprocessImage ex_library (buffer ex_file) ?w2 = (Inr t, w3)
      \<and> called Predict w3 = called Predict w3"
    using f v p by simp
  have "classifyImage ex_library ex_clock loaded_service ex_request started_world =
               (\<lparr>status = 200,
                 body = Success (result_of res)
                          \<lparr>o_filename = originalname ex_file, o_size = file_size ex_file,
                           o_mimetype = mimetype ex_file, o_dimensions = dimensions ?md\<rparr>
                          \<lparr>p_timeMs = end_ms ex_clock - start_ms ex_clock,
                           p_modelInputSize = ''32x32x3'',
                           p_normalization = ''Range [-1, 1]''\<rparr>
                          (iso_now ex_clock)\<rparr>,
                dispose t (snd (predict loaded_service t (called Predict w3))))"
    using all [THEN conjunct2, THEN conjunct2, THEN conjunct2, THEN conjunct2, THEN conjunct2,
        THEN conjunct1, rule_format, OF pre] .
  then have sent: "classifyImage ex_library ex_clock loaded_service ex_request started_world =
        (\<lparr>status = 200,
          body = Success (result_of res)
                   \<lparr>o_filename = ''cat.png'', o_size = 4, o_mimetype = ''image/png'',
                    o_dimensions = ''500x400''\<rparr>
                   \<lparr>p_timeMs = 30, p_modelInputSize = ''32x32x3'',
                    p_normalization = ''Range [-1, 1]''\<rparr>
                   ''2024-01-01T00:00:00.000Z''\<rparr>,
         dispose t (snd (predict loaded_service t (called Predict w3))))"
    by (simp add: ex_file_def ex_clock_def ex_dimensions)
  show ?thesis
    by (rule exI, rule exI, intro conjI) (rule sent props [THEN conjunct1]
        props [THEN conjunct2, THEN conjunct1] props [THEN conjunct2, THEN conjunct2] top5)+
qed

text \<open>
  \<open>Number(x.toFixed(d))\<close> is a multiple of \<open>10^-d\<close> at most half a unit of the last
  place away from \<open>x\<close>.
\<close>

lemma Number_toFixed_rounds:
  assumes "\<bar>x\<bar> < 10 ^ 21"
  shows "\<exists>n::int. Number_toFixed d (Fin x) = Fin (of_int n / 10 ^ d)
           \<and> \<bar>of_int n / 10 ^ d - x\<bar> \<le> 1 / (2 * 10 ^ d)"
proof -
  let ?y = "\<bar>x\<bar> * 10 ^ d"
  let ?k = "\<lfloor>?y + 1 / 2\<rfloor>"
  have y: "0 \<le> ?y" by simp
  then have k0: "0 \<le> ?k" by simp
  have "of_int ?k \<le> ?y + 1 / 2" "?y + 1 / 2 < of_int ?k + 1"
    by linarith+
  then have near: "\<bar>of_int ?k - ?y\<bar> \<le> 1 / 2" by linarith
  have pos: "(0::rat) < 10 ^ d" by simp
  have "of_int ?k / 10 ^ d - \<bar>x\<bar> = (of_int ?k - ?y) / 10 ^ d"
    by (simp add: diff_divide_distrib)
  then have "\<bar>of_int ?k / 10 ^ d - \<bar>x\<bar>\<bar> = \<bar>of_int ?k - ?y\<bar> / 10 ^ d"
    using pos by (simp only: abs_divide abs_of_pos)
  also have "\<dots> \<le> (1 / 2) / 10 ^ d"
    using near by (rule divide_right_mono) simp
  finally have close: "\<bar>of_int ?k / 10 ^ d - \<bar>x\<bar>\<bar> \<le> 1 / (2 * 10 ^ d)"
    by simp
  have nat: "(of_nat (scaled_round d \<bar>x\<bar>) :: rat) = of_int ?k"
    using k0 by (simp add: scaled_round_def)
  show ?thesis
  proof (cases "x < 0")
    case True
    have "Number_toFixed d (Fin x) = Fin (of_int (- ?k) / 10 ^ d)"
      using assms True nat by (simp add: Number_toFixed_def)
    moreover have "\<bar>of_int (- ?k) / 10 ^ d - x\<bar> \<le> 1 / (2 * 10 ^ d)"
      using close True by (simp add: abs_if split: if_splits)
    ultimately show ?thesis by blast
  next
    case False
    have "Number_toFixed d (Fin x) = Fin (of_int ?k / 10 ^ d)"
      using assms False nat by (simp add: Number_toFixed_def)
    moreover have "\<bar>of_int ?k / 10 ^ d - x\<bar> \<le> 1 / (2 * 10 ^ d)"
      using close False by simp
    ultimately show ?thesis by blast
  qed
qed


lemma num_le_not_lt: "num_le a b \<Longrightarrow> \<not> num_lt b a"
  by (auto simp: num_le_def strict_eq_def dest: num_lt_asym)

text \<open>
  Claim C10. Let the model be loaded and return a vector of ten probabilities that
  has a maximum (so no \<open>NaN\<close>). Then \<open>predict\<close> returns a result which agrees with
  itself: \<open>predictedClass\<close> is the class of the first entry of the full sorted list
  \<open>allPredictions\<close>, and \<open>confidence\<close> is \<open>Number(p.toFixed(4))\<close> for the
  probability \<open>p\<close> of that entry, that is (below \<open>10^21\<close>) a multiple of
  \<open>0.0001\<close> at most \<open>0.00005\<close> away from \<open>p\<close>. The entries of \<open>allPredictions\<close>
  are the classes paired with the probabilities as the model gave them, unrounded.
  Ties do not break the agreement: the sort is stable.
\<close>

theorem prediction_consistent:
  assumes "model svc = Some m" "m img = Inr (sh, ps)" "length ps = 10"
    and "arrays w (classes svc) = Some classNames" "length classNames = 10"
    and "\<exists>top\<in>set ps. \<forall>x\<in>set ps. num_le x top"
  shows "\<exists>res w'. predict svc img w = (Inr res, w')
           \<and> allPredictions res \<noteq> []
           \<and> predictedClass res = Some (className (hd (allPredictions res)))
           \<and> confidence res = Number_toFixed 4 (to_number (probability (hd (allPredictions res))))
           \<and> (\<forall>x. probability (hd (allPredictions res)) = Some (Fin x) \<and> \<bar>x\<bar> < 10 ^ 21 \<longrightarrow>
                 (\<exists>n::int. confidence res = Fin (of_int n / 10 ^ 4)
                     \<and> \<bar>of_int n / 10 ^ 4 - x\<bar> \<le> 1 / (2 * 10 ^ 4)))
           \<and> (\<lambda>c. (className c, probability c)) ` set (allPredictions res)
               = set (zip classNames (map Some ps))"
proof -
  let ?results = "map (class_result ps) (enumerate 0 classNames)"
  have len: "length ps = length classNames" using assms(3,5) by simp
  have zipped: "?results = map (\<lambda>(n, p). entry n p) (zip classNames ps)"
    using len by (rule class_results_zip)
  obtain i where i: "i < length ps" "\<forall>j<length ps. num_le (ps ! j) (ps ! i)"
    "\<forall>j<i. ps ! j \<noteq> ps ! i"
    using first_maximum_exists [OF assms(6)] by blast
  have idx: "indexOf ps (Math_max ps) = int i"
    using i by (rule indexOf_Math_max)
  obtain res where res: "fst (predict svc img w) = Inr res"
    "predictedClass res = elem_at (read_array w (classes svc)) (int i)"
    "confidence res = Number_toFixed 4 (ps ! i)"
    "allPredictions res = array_sort by_probability ?results"
    using predict_loaded [OF assms(1,2) idx i(1), of w] assms(4)
    by (simp add: read_array_def)
  have run: "predict svc img w = (Inr res, snd (predict svc img w))"
    using res(1) by (metis prod.collapse)
  have nn: "NaN \<notin> set ps"
    using assms(6) num_le_not_NaN by blast
  have at: "?results ! j = entry (classNames ! j) (ps ! j)" if "j < 10" for j
    using that assms(3,5) by (simp add: zipped)
  have ilt: "i < length ?results" using i(1) len by simp
  have "hd (array_sort by_probability ?results) = ?results ! i"
  proof (rule hd_array_sort [OF class_results_not_NaN [OF len nn] ilt])
    show "\<forall>j<length ?results.
        \<not> num_lt (to_number (probability (?results ! i))) (to_number (probability (?results ! j)))"
      using i(1,2) assms(3,5) at num_le_not_lt by (simp add: entry_def to_number_def)
    show "\<forall>j<i. probability (?results ! j) \<noteq> probability (?results ! i)"
      using i(1,3) assms(3) at by (simp add: entry_def)
  qed
  then have hd: "hd (allPredictions res) = entry (classNames ! i) (ps ! i)"
    using at i(1) assms(3) by (simp add: res(4))
  have a: "allPredictions res \<noteq> []"
    using ilt length_array_sort [of by_probability ?results] res(4) by auto
  have b: "predictedClass res = Some (className (hd (allPredictions res)))"
    using res(2) assms(3,4,5) i(1) by (simp add: hd entry_def read_array_def elem_at_def)
  have c: "confidence res = Number_toFixed 4 (to_number (probability (hd (allPredictions res))))"
    using res(3) by (simp add: hd entry_def to_number_def)
  have d: "\<forall>x. probability (hd (allPredictions res)) = Some (Fin x) \<and> \<bar>x\<bar> < 10 ^ 21 \<longrightarrow>
                 (\<exists>n::int. confidence res = Fin (of_int n / 10 ^ 4)
                     \<and> \<bar>of_int n / 10 ^ 4 - x\<bar> \<le> 1 / (2 * 10 ^ 4))"
  proof (intro allI impI)
    fix x
    assume x: "probability (hd (allPredictions res)) = Some (Fin x) \<and> \<bar>x\<bar> < 10 ^ 21"
    then have "confidence res = Number_toFixed 4 (Fin x)"
      using c by (simp add: to_number_def)
    then show "\<exists>n::int. confidence res = Fin (of_int n / 10 ^ 4)
                     \<and> \<bar>of_int n / 10 ^ 4 - x\<bar> \<le> 1 / (2 * 10 ^ 4)"
      using Number_toFixed_rounds [of x 4] x by simp
  qed
  have "(\<lambda>c. (className c, probability c)) ` set (allPredictions res)
          = (\<lambda>c. (className c, probability c)) ` set ?results"
    by (simp add: res(4) set_array_sort)
  also have "\<dots> = set (map (\<lambda>c. (className c, probability c)) ?results)"
    by (rule set_map [symmetric])
  also have "map (\<lambda>c. (className c, probability c)) ?results
               = map (\<lambda>(n, p). (n, Some p)) (zip classNames ps)"
    unfolding zipped by (simp add: entry_def case_prod_unfold)
  also have "\<dots> = zip classNames (map Some ps)"
    by (simp add: zip_map2)
  finally have e: "(\<lambda>c. (className c, probability c)) ` set (allPredictions res)
               = set (zip classNames (map Some ps))" .
  show ?thesis
    by (rule exI, rule exI, intro conjI) (rule run a b c d e)+
qed


theorem prediction_consistent_witness:
  "(\<exists>top\<in>set ex_probabilities. \<forall>x\<in>set ex_probabilities. num_le x top)
   \<and> (\<exists>res w'. predict loaded_service ex_tensor started_world = (Inr res, w')
          \<and> predictedClass res = Some ''car''
          \<and> className (hd (allPredictions res)) = ''car''
          \<and> confidence res = Fin (3 / 10)
          \<and> Number_toFixed 4 (to_number (probability (hd (allPredictions res)))) = Fin (3 / 10))"
proof -
  have a: "model loaded_service = Some ex_model"
    by (simp add: loaded_service_def)
  have b: "ex_model ex_tensor = Inr ([1, 10], ex_probabilities)"
    by (simp add: ex_model_def)
  have c: "length ex_probabilities = 10"
    by (simp add: ex_probabilities_def)
  have d: "arrays started_world (classes loaded_service) = Some class_names"
    by (simp add: started_world_def loaded_service_def ex_service_def new_ModelService_def
        new_array_def)
  have e: "length class_names = 10"
    by (simp add: class_names_def)
  have f: "\<exists>top\<in>set ex_probabilities. \<forall>x\<in>set ex_probabilities. num_le x top"
    by (simp add: ex_probabilities_def num_le_def strict_eq_def)
  obtain res w' where r: "predict loaded_service ex_tensor started_world = (Inr res, w')"
    "predictedClass res = Some (className (hd (allPredictions res)))"
    "confidence res = Number_toFixed 4 (to_number (probability (hd (allPredictions res))))"
    using prediction_consistent [OF a b c d e f] by blast
  have "fst (predict loaded_service ex_tensor started_world) = Inr res"
    using r(1) by simp
  then have known: "predictedClass res = elem_at (read_array started_world (classes loaded_service)) (int 1)"
    "confidence res = Number_toFixed 4 (ex_probabilities ! 1)"
    using predict_loaded [OF a b ex_index, of started_world] c by auto
  have car: "predictedClass res = Some ''car''"
    using known(1) d by (simp add: read_array_def elem_at_def class_names_def)
  have "\<lfloor>(3 / 10 :: rat) * 10 ^ 4 + 1 / 2\<rfloor> = 3000"
    by (rule floor_unique) simp_all
  then have "scaled_round 4 \<bar>3 / 10\<bar> = 3000"
    by (simp add: scaled_round_def)
  then have "Number_toFixed 4 (Fin (3 / 10)) = Fin (3 / 10)"
    by (simp add: Number_toFixed_def)
  then have conf: "confidence res = Fin (3 / 10)"
    using known(2) by (simp add: ex_probabilities_def)
  have g: "predict loaded_service ex_tensor started_world = (Inr res, w')
          \<and> predictedClass res = Some ''car''
          \<and> className (hd (allPredictions res)) = ''car''
          \<and> confidence res = Fin (3 / 10)
          \<and> Number_toFixed 4 (to_number (probability (hd (allPredictions res)))) = Fin (3 / 10)"
    using r car conf by simp
  show ?thesis
    by (rule conjI, rule f, rule exI, rule exI, rule g)
qed


section \<open>preprocessImage\<close>

text \<open>The code's formula and the specification's.\<close>

lemma normalize_code_eq_spec: "(v - 255 / 2) / (255 / 2) = spec_normalize v"
  by (simp add: spec_normalize_def field_simps)

text \<open>What a returned tensor was computed from.\<close>

lemma preprocessImage_returned:
  assumes "preprocessImage lib imageBuffer w = (Inr t, w')"
  shows "\<exists>png dsh dvs sh vs.
           sharp_resize_png lib imageBuffer 32 32 = Inr png
           \<and> decodeImage lib png 3 = Inr (dsh, dvs)
           \<and> resizeBilinear lib \<lparr>tid = next_id w, shape = dsh, vals = dvs\<rparr> (32, 32) = Inr (sh, vs)
           \<and> shape t = 1 # sh
           \<and> vals t = map (\<lambda>v. num_div (num_sub v (Fin (255 / 2))) (255 / 2)) vs"
  using assms
  by (auto simp: preprocessImage_def preprocess_failed_def alloc_def dispose_def tf_sub_def
      tf_div_def tf_expandDims_def TARGET_WIDTH_def TARGET_HEIGHT_def Let_def
      split: sum.splits prod.splits)


text \<open>
  Claim C5. Let the image libraries keep their contracts on the calls the code
  makes. Whenever \<open>preprocessImage\<close> returns a tensor, its shape is
  \<open>[1, 32, 32, 3]\<close>, it has 3072 values, each of them lies in \<open>[-1, 1]\<close>, and it
  is computed from the given buffer in this way: sharp's PNG of the buffer is
  decoded, the decoded image is resized to values \<open>v\<close> in \<open>[0, 255]\<close>, and every
  such \<open>v\<close> is replaced by \<open>(v / 127.5) - 1\<close>. The code computes
  \<open>(v - 127.5) / 127.5\<close>, which is the same number in exact arithmetic.
\<close>

theorem preprocessImage_normalized:
  assumes "decode_contract lib" "resize_contract lib"
    and "preprocessImage lib imageBuffer w = (Inr t, w')"
  shows "shape t = [1, 32, 32, 3]
       \<and> length (vals t) = 3072
       \<and> (\<forall>v\<in>set (vals t). in_unit_range v)
       \<and> (\<exists>png dsh dvs pixels.
             sharp_resize_png lib imageBuffer 32 32 = Inr png
             \<and> decodeImage lib png 3 = Inr (dsh, dvs)
             \<and> resizeBilinear lib \<lparr>tid = next_id w, shape = dsh, vals = dvs\<rparr> (32, 32)
                 = Inr ([32, 32, 3], map Fin pixels)
             \<and> (\<forall>p\<in>set pixels. 0 \<le> p \<and> p \<le> 255)
             \<and> vals t = map (\<lambda>p. Fin (spec_normalize p)) pixels)
       \<and> (\<forall>v. (v - 255 / 2) / (255 / 2) = spec_normalize v)"
proof -
  obtain png dsh dvs sh vs where
    png: "sharp_resize_png lib imageBuffer 32 32 = Inr png"
    and dec: "decodeImage lib png 3 = Inr (dsh, dvs)"
    and rsz: "resizeBilinear lib \<lparr>tid = next_id w, shape = dsh, vals = dvs\<rparr> (32, 32) = Inr (sh, vs)"
    and sht: "shape t = 1 # sh"
    and vt: "vals t = map (\<lambda>v. num_div (num_sub v (Fin (255 / 2))) (255 / 2)) vs"
    using preprocessImage_returned [OF assms(3)] by blast
  let ?img = "\<lparr>tid = next_id w, shape = dsh, vals = dvs\<rparr>"
  have "sharp_resize_png lib imageBuffer TARGET_WIDTH TARGET_HEIGHT = Inr png
          \<and> decodeImage lib png 3 = Inr (dsh, dvs)"
    using png dec by (simp add: TARGET_WIDTH_def TARGET_HEIGHT_def)
  then obtain h w0 where d: "dsh = [h, w0, 3]" "0 < h" "0 < w0"
    "length dvs = prod_list dsh" "\<forall>v\<in>set dvs. is_pixel v"
    using assms(1) unfolding decode_contract_def by blast
  have "resizeBilinear lib ?img (TARGET_WIDTH, TARGET_HEIGHT) = Inr (sh, vs)
          \<and> shape ?img = [h, w0, 3] \<and> 0 < h \<and> 0 < w0
          \<and> length (vals ?img) = prod_list (shape ?img) \<and> (\<forall>v\<in>set (vals ?img). is_pixel v)"
    using rsz d by (simp add: TARGET_WIDTH_def TARGET_HEIGHT_def)
  then have "sh = [TARGET_WIDTH, TARGET_HEIGHT, 3] \<and> length vs = prod_list sh
          \<and> (\<forall>v\<in>set vs. is_pixel v)"
    using assms(2) unfolding resize_contract_def by blast
  then have r: "sh = [32, 32, 3]" "length vs = 3072" "\<forall>v\<in>set vs. is_pixel v"
    by (simp_all add: TARGET_WIDTH_def TARGET_HEIGHT_def)
  define pixels where "pixels = map (\<lambda>v. case v of Fin x \<Rightarrow> x | _ \<Rightarrow> 0) vs"
  have vs_eq: "map Fin pixels = vs"
    unfolding pixels_def using r(3)
    by (auto simp: is_pixel_def map_idI split: number.splits)
  have range: "\<forall>p\<in>set pixels. 0 \<le> p \<and> p \<le> 255"
    unfolding pixels_def using r(3)
    by (auto simp: is_pixel_def split: number.splits)
  have normalized: "vals t = map (\<lambda>p. Fin (spec_normalize p)) pixels"
    unfolding vt vs_eq [symmetric]
    by (simp add: spec_normalize_def field_simps)
  have bounded: "\<forall>v\<in>set (vals t). in_unit_range v"
    unfolding normalized using range
    by (auto simp: in_unit_range_def spec_normalize_def field_simps)
  have rsz': "resizeBilinear lib ?img (32, 32) = Inr ([32, 32, 3], map Fin pixels)"
    using rsz r(1) vs_eq by simp
  have chain: "\<exists>png dsh dvs pixels.
             sharp_resize_png lib imageBuffer 32 32 = Inr png
             \<and> decodeImage lib png 3 = Inr (dsh, dvs)
             \<and> resizeBilinear lib \<lparr>tid = next_id w, shape = dsh, vals = dvs\<rparr> (32, 32)
                 = Inr ([32, 32, 3], map Fin pixels)
             \<and> (\<forall>p\<in>set pixels. 0 \<le> p \<and> p \<le> 255)
             \<and> vals t = map (\<lambda>p. Fin (spec_normalize p)) pixels"
    by (rule exI [of _ png], rule exI [of _ dsh], rule exI [of _ dvs], rule exI [of _ pixels],
        intro conjI) (rule png dec rsz' range normalized)+
  have s1: "shape t = [1, 32, 32, 3]"
    using sht r(1) by simp
  have s2: "length (vals t) = 3072"
    using vt r(2) by simp
  have s3: "\<forall>v. (v - 255 / 2) / (255 / 2) = spec_normalize v"
    using normalize_code_eq_spec by blast
  show ?thesis
    by (intro conjI) (rule s1 s2 bounded chain s3)+
qed

text \<open>
  The example library keeps both contracts, although its decoder returns rank 4
  for buffers that are not sharp's.
\<close>

lemma ex_library_contracts: "decode_contract ex_library" "resize_contract ex_library"
  using ex_pixels_facts
  by (auto simp: decode_contract_def resize_contract_def ex_library_def TARGET_WIDTH_def
      TARGET_HEIGHT_def)

theorem preprocessImage_normalized_witness:
  "decode_contract ex_library \<and> resize_contract ex_library
   \<and> (\<exists>t w'. preprocessImage ex_library (buffer ex_file) started_world = (Inr t, w')
          \<and> shape t = [1, 32, 32, 3] \<and> length (vals t) = 3072
          \<and> (\<forall>v\<in>set (vals t). in_unit_range v)
          \<and> set (vals t) = {Fin (- 1), Fin (- (3 / 5)), Fin 1})
   \<and> (case decodeImage ex_library [71, 73, 70, 56] 3 of
         Inl e \<Rightarrow> 0 | Inr (sh, vs) \<Rightarrow> length sh) = 4"
proof -
  define t where "t = \<lparr>tid = 4, shape = [1, 32, 32, 3],
            vals = map (\<lambda>v. num_div v (255 / 2))
                     (map (\<lambda>v. num_sub v (Fin (255 / 2))) ex_pixels)\<rparr>"
  have run: "preprocessImage ex_library (buffer ex_file) started_world =
      (Inr t, snd (preprocessImage ex_library (buffer ex_file) started_world))"
    using ex_preprocess(1) [of started_world]
    by (simp add: started_world_fields prod_eq_iff t_def)
  have vals: "set (vals t) = {Fin (- 1), Fin (- (3 / 5)), Fin 1}"
    by (simp add: t_def ex_pixels_facts(2) image_image)
  have props: "shape t = [1, 32, 32, 3] \<and> length (vals t) = 3072
          \<and> (\<forall>v\<in>set (vals t). in_unit_range v)
          \<and> set (vals t) = {Fin (- 1), Fin (- (3 / 5)), Fin 1}"
    using preprocessImage_normalized [OF ex_library_contracts run] vals by simp
  have "\<exists>t w'. preprocessImage ex_library (buffer ex_file) started_world = (Inr t, w')
          \<and> shape t = [1, 32, 32, 3] \<and> length (vals t) = 3072
          \<and> (\<forall>v\<in>set (vals t). in_unit_range v)
          \<and> set (vals t) = {Fin (- 1), Fin (- (3 / 5)), Fin 1}"
    by (rule exI, rule exI, rule conjI, rule run, rule props)
  moreover have "(case decodeImage ex_library [71, 73, 70, 56] 3 of
         Inl e \<Rightarrow> 0 | Inr (sh, vs) \<Rightarrow> length sh) = 4"
    by (simp add: ex_library_def)
  ultimately show ?thesis
    using ex_library_contracts by simp
qed

section \<open>Tensors that are never released\<close>

text \<open>
  Every successful run leaves two of its five tensors live: the third it creates
  (the result of \<open>tf.sub\<close>) and the fifth (the batched tensor it returns).
\<close>

lemma preprocessImage_success_live:
  assumes "preprocessImage lib imageBuffer w = (Inr t, w')"
  shows "tid t = next_id w + 4
       \<and> live w' = (live w - {next_id w, next_id w + 1, next_id w + 3})
                     \<union> {next_id w + 2, next_id w + 4}"
  using assms
  by (auto simp: preprocessImage_def preprocess_failed_def alloc_def dispose_def tf_sub_def
      tf_div_def tf_expandDims_def Let_def split: sum.splits prod.splits)

lemma resize_throwing_preprocess:
  "fst (preprocessImage resize_throwing_library (buffer ex_file) w) =
     Inl (Error ''Image preprocessing failed: Error: out of memory'')"
  "live (snd (preprocessImage resize_throwing_library (buffer ex_file) w)) =
     insert (next_id w) (live w)"
  by (simp_all add: preprocessImage_def resize_throwing_library_def ex_library_def ex_file_def
      alloc_def preprocess_failed_def console_error_def TARGET_WIDTH_def TARGET_HEIGHT_def)

text \<open>
  Claim C2, evaluated. Handles are numbered in the order of creation: in a run of
  \<open>preprocessImage\<close> from the started world, 0 is the decoded image, 1 the resized
  image, 2 the result of \<open>tf.sub\<close>, 3 the result of \<open>tf.div\<close> and 4 the batched
  tensor. After a successful run the tensors 2 and 4 are live: the result of
  \<open>tf.sub\<close> is never disposed. When \<open>resizeBilinear\<close> throws, the decoded image 0
  stays live: the \<open>catch\<close> block disposes nothing.
\<close>

theorem preprocessImage_leaves_tensors:
  "live started_world = {}
   \<and> (\<exists>t w'. preprocessImage ex_library (buffer ex_file) started_world = (Inr t, w')
          \<and> tid t = 4 \<and> live w' = {2, 4})
   \<and> (\<exists>e w'. preprocessImage resize_throwing_library (buffer ex_file) started_world = (Inl e, w')
          \<and> live w' = {0})"
proof -
  have a: "preprocessImage ex_library (buffer ex_file) started_world =
      (Inr \<lparr>tid = 4, shape = [1, 32, 32, 3],
            vals = map (\<lambda>v. num_div v (255 / 2))
                     (map (\<lambda>v. num_sub v (Fin (255 / 2))) ex_pixels)\<rparr>,
       snd (preprocessImage ex_library (buffer ex_file) started_world))"
    using ex_preprocess(1) [of started_world]
    by (simp add: started_world_fields prod_eq_iff)
  have b: "live (snd (preprocessImage ex_library (buffer ex_file) started_world)) = {2, 4}"
    by (auto simp: ex_preprocess_live started_world_fields)
  have c: "preprocessImage resize_throwing_library (buffer ex_file) started_world =
      (Inl (Error ''Image preprocessing failed: Error: out of memory''),
       snd (preprocessImage resize_throwing_library (buffer ex_file) started_world))"
    using resize_throwing_preprocess(1) [of started_world] by (simp add: prod_eq_iff)
  have d: "live (snd (preprocessImage resize_throwing_library (buffer ex_file) started_world)) = {0}"
    by (simp add: resize_throwing_preprocess started_world_fields)
  have "\<exists>t w'. preprocessImage ex_library (buffer ex_file) started_world = (Inr t, w')
          \<and> tid t = 4 \<and> live w' = {2, 4}"
    by (rule exI, rule exI, rule conjI, rule a, rule conjI, simp, rule b)
  moreover have "\<exists>e w'. preprocessImage resize_throwing_library (buffer ex_file) started_world
          = (Inl e, w') \<and> live w' = {0}"
    by (rule exI, rule exI, rule conjI, rule c, rule d)
  ultimately show ?thesis
    using started_world_fields(1) by simp
qed


section \<open>The request handler after preprocessing\<close>

text \<open>\<open>predict\<close> releases the one tensor it creates.\<close>

lemma predict_keeps_live:
  assumes "next_id w \<notin> live w"
  shows "live (snd (predict svc t w)) = live w"
  using assms
  by (auto simp: predict_def prediction_failed_def console_error_def alloc_def dispose_def
      Let_def split: option.splits sum.splits prod.splits)

text \<open>The handler once validation and preprocessing have succeeded.\<close>

lemma classifyImage_after_preprocess:
  assumes "req_file req = Some f" "isModelLoaded svc"
    and "validateImage lib (buffer f) (called ValidateImage w) = (Inr imageMetadata, w1)"
    and "preprocessImage lib (buffer f)
           (called PreprocessImage
              (console_log ''Processing image:''
                 [(''originalName'', originalname f), (''size'', nat_digits (file_size f)),
                  (''mimetype'', mimetype f), (''dimensions'', dimensions imageMetadata)] w1))
         = (Inr t, w3)"
  shows "predict svc t (called Predict w3) = (Inl e, w4) \<Longrightarrow>
           classifyImage lib clk svc req w = classification_error clk e w4"
    and "predict svc t (called Predict w3) = (Inr prediction, w4) \<Longrightarrow>
           status (fst (classifyImage lib clk svc req w)) = 200
           \<and> snd (classifyImage lib clk svc req w) = dispose t w4"
  using assms by (simp_all add: classifyImage_def)

text \<open>
  On every path where preprocessing succeeded and \<open>predict\<close> threw, the handler
  ends with the tensors that were live when \<open>predict\<close> returned: it disposes none.
\<close>

lemma classifyImage_predict_failed:
  assumes "req_file req = Some f" "isModelLoaded svc"
    and "validateImage lib (buffer f) (called ValidateImage w) = (Inr imageMetadata, w1)"
    and "preprocessImage lib (buffer f)
           (called PreprocessImage
              (console_log ''Processing image:''
                 [(''originalName'', originalname f), (''size'', nat_digits (file_size f)),
                  (''mimetype'', mimetype f), (''dimensions'', dimensions imageMetadata)] w1))
         = (Inr t, w3)"
    and "predict svc t (called Predict w3) = (Inl e, w4)"
  shows "live (snd (classifyImage lib clk svc req w)) = live w4"
proof -
  have "classifyImage lib clk svc req w = classification_error clk e w4"
    using assms by (rule classifyImage_after_preprocess(1))
  then show ?thesis
    using classification_error_frame [of clk e w4] by (metis prod.collapse)
qed


text \<open>The example request up to the call of \<open>predict\<close>.\<close>

lemma ex_run_to_predict:
  assumes "model svc = Some m"
  shows "\<exists>t w3. tid t = 4 \<and> live w3 = {2, 4} \<and> next_id w3 = 5
           \<and> (\<forall>e w4. predict svc t (called Predict w3) = (Inl e, w4) \<longrightarrow>
                 classifyImage ex_library ex_clock svc ex_request started_world
                   = classification_error ex_clock e w4)
           \<and> (\<forall>prediction w4. predict svc t (called Predict w3) = (Inr prediction, w4) \<longrightarrow>
                 status (fst (classifyImage ex_library ex_clock svc ex_request started_world)) = 200
                 \<and> snd (classifyImage ex_library ex_clock svc ex_request started_world)
                     = dispose t w4)"
proof -
  let ?md = "\<lparr>width = 500, height = 400, format = ''png'', size' = 4, channels = 3\<rparr>"
  let ?w1 = "called ValidateImage started_world"
  let ?w2 = "called PreprocessImage
              (console_log ''Processing image:''
                 [(''originalName'', originalname ex_file),
                  (''size'', nat_digits (file_size ex_file)),
                  (''mimetype'', mimetype ex_file), (''dimensions'', dimensions ?md)] ?w1)"
  let ?p = "preprocessImage ex_library (buffer ex_file) ?w2"
  define t where "t = \<lparr>tid = 4, shape = [1, 32, 32, 3],
            vals = map (\<lambda>v. num_div v (255 / 2))
                     (map (\<lambda>v. num_sub v (Fin (255 / 2))) ex_pixels)\<rparr>"
  have w2: "next_id ?w2 = 0" "live ?w2 = {}"
    by (simp_all add: called_def console_log_def started_world_fields)
  have f: "req_file ex_request = Some ex_file"
    by (simp add: ex_request_def)
  have l: "isModelLoaded svc"
    using assms by (simp add: isModelLoaded_def)
  have v: "validateImage ex_library (buffer ex_file) ?w1 = (Inr ?md, ?w1)"
    by (rule ex_validate)
  have p: "?p = (Inr t, snd ?p)"
    using ex_preprocess(1) [of ?w2] by (simp add: w2 prod_eq_iff t_def)
  have live: "live (snd ?p) = {2, 4}"
    by (auto simp: ex_preprocess_live w2)
  have nxt: "next_id (snd ?p) = 5"
    by (simp add: ex_preprocess(2) w2)
  have a: "\<forall>e w4. predict svc t (called Predict (snd ?p)) = (Inl e, w4) \<longrightarrow>
                 classifyImage ex_library ex_clock svc ex_request started_world
                   = classification_error ex_clock e w4"
    using classifyImage_after_preprocess(1) [OF f l v p] by blast
  have b: "\<forall>prediction w4. predict svc t (called Predict (snd ?p)) = (Inr prediction, w4) \<longrightarrow>
                 status (fst (classifyImage ex_library ex_clock svc ex_request started_world)) = 200
                 \<and> snd (classifyImage ex_library ex_clock svc ex_request started_world)
                     = dispose t w4"
    using classifyImage_after_preprocess(2) [OF f l v p] by blast
  have tid: "tid t = 4" by (simp add: t_def)
  show ?thesis
    by (rule exI [of _ t], rule exI [of _ "snd ?p"], intro conjI) (rule tid live nxt a b)+
qed


lemma status_prediction_failed:
  "status (fst (classification_error clk (Error ''Prediction failed: Error: inference failed'') w))
     = 500"
  "status (fst (classification_error clk (Error (''Prediction failed: '' @ undefined_toFixed)) w))
     = 500"
  by (simp_all add: classification_error_def undefined_toFixed_def Let_def)

text \<open>
  Claim C1, evaluated on the example request, whose preprocessed tensor has the
  handle 4. When the model throws, and when the model returns \<open>NaN\<close>s (so that
  \<open>predict\<close> throws at \<open>confidence.toFixed\<close>), the handler answers 500 and tensor
  4 is still live at the end: \<open>preprocessedImage.dispose()\<close> stands after the call
  of \<open>predict\<close> and the \<open>catch\<close> block disposes nothing. When \<open>predict\<close>
  returns, the handler answers 200 and tensor 4 is released. (Tensor 2, live in
  all three runs, is the result of \<open>tf.sub\<close> that \<open>preprocessImage\<close> leaves.)
\<close>

theorem predict_failure_leaks_tensor:
  "status (fst (classifyImage ex_library ex_clock (ex_service\<lparr>model := Some throwing_model\<rparr>)
                  ex_request started_world)) = 500
   \<and> live (snd (classifyImage ex_library ex_clock (ex_service\<lparr>model := Some throwing_model\<rparr>)
                  ex_request started_world)) = {2, 4}
   \<and> status (fst (classifyImage ex_library ex_clock (ex_service\<lparr>model := Some nan_model\<rparr>)
                  ex_request started_world)) = 500
   \<and> live (snd (classifyImage ex_library ex_clock (ex_service\<lparr>model := Some nan_model\<rparr>)
                  ex_request started_world)) = {2, 4}
   \<and> status (fst (classifyImage ex_library ex_clock loaded_service ex_request started_world)) = 200
   \<and> live (snd (classifyImage ex_library ex_clock loaded_service ex_request started_world)) = {2}"
proof -
  let ?throwing = "ex_service\<lparr>model := Some throwing_model\<rparr>"
  let ?nan = "ex_service\<lparr>model := Some nan_model\<rparr>"
  have fresh: "next_id (called Predict w3) \<notin> live (called Predict w3)"
    "live (called Predict w3) = {2, 4}"
    if "live w3 = {2, 4}" "next_id w3 = 5" for w3
    using that by (simp_all add: called_def)
  have first: "status (fst (classifyImage ex_library ex_clock ?throwing ex_request started_world)) = 500
     \<and> live (snd (classifyImage ex_library ex_clock ?throwing ex_request started_world)) = {2, 4}"
  proof -
    obtain t w3 where r: "live w3 = {2, 4}" "next_id w3 = 5"
      "\<forall>e w4. predict ?throwing t (called Predict w3) = (Inl e, w4) \<longrightarrow>
         classifyImage ex_library ex_clock ?throwing ex_request started_world
           = classification_error ex_clock e w4"
      using ex_run_to_predict [of ?throwing throwing_model] by auto
    let ?w4 = "snd (predict ?throwing t (called Predict w3))"
    have "predict ?throwing t (called Predict w3) =
            (Inl (Error ''Prediction failed: Error: inference failed''), ?w4)"
      by (simp add: predict_def throwing_model_def prediction_failed_def)
    then have run: "classifyImage ex_library ex_clock ?throwing ex_request started_world
        = classification_error ex_clock (Error ''Prediction failed: Error: inference failed'') ?w4"
      using r(3) by blast
    have "live ?w4 = {2, 4}"
      using predict_keeps_live [OF fresh(1) [OF r(1,2)]] fresh(2) [OF r(1,2)] by simp
    then have "live (snd (classification_error ex_clock
                 (Error ''Prediction failed: Error: inference failed'') ?w4)) = {2, 4}"
      using classification_error_frame [of ex_clock _ ?w4] by (metis prod.collapse)
    then show ?thesis
      by (simp add: run status_prediction_failed)
  qed
  have second: "status (fst (classifyImage ex_library ex_clock ?nan ex_request started_world)) = 500
     \<and> live (snd (classifyImage ex_library ex_clock ?nan ex_request started_world)) = {2, 4}"
  proof -
    obtain t w3 where r: "live w3 = {2, 4}" "next_id w3 = 5"
      "\<forall>e w4. predict ?nan t (called Predict w3) = (Inl e, w4) \<longrightarrow>
         classifyImage ex_library ex_clock ?nan ex_request started_world
           = classification_error ex_clock e w4"
      using ex_run_to_predict [of ?nan nan_model] by auto
    let ?w4 = "snd (predict ?nan t (called Predict w3))"
    have "fst (predict ?nan t (called Predict w3)) =
            Inl (Error (''Prediction failed: '' @ undefined_toFixed))"
      by (simp add: predict_def nan_model_def prediction_failed_def alloc_def Math_max_def
          indexOf_def strict_eq_def elem_at_def Let_def)
    then have "predict ?nan t (called Predict w3) =
            (Inl (Error (''Prediction failed: '' @ undefined_toFixed)), ?w4)"
      by (simp add: prod_eq_iff)
    then have run: "classifyImage ex_library ex_clock ?nan ex_request started_world
        = classification_error ex_clock (Error (''Prediction failed: '' @ undefined_toFixed)) ?w4"
      using r(3) by blast
    have "live ?w4 = {2, 4}"
      using predict_keeps_live [OF fresh(1) [OF r(1,2)]] fresh(2) [OF r(1,2)] by simp
    then have "live (snd (classification_error ex_clock
                 (Error (''Prediction failed: '' @ undefined_toFixed)) ?w4)) = {2, 4}"
      using classification_error_frame [of ex_clock _ ?w4] by (metis prod.collapse)
    then show ?thesis
      using status_prediction_failed(2) [of ex_clock ?w4] by (simp add: run)
  qed
  have third: "status (fst (classifyImage ex_library ex_clock loaded_service ex_request started_world)) = 200
     \<and> live (snd (classifyImage ex_library ex_clock loaded_service ex_request started_world)) = {2}"
  proof -
    have m: "model loaded_service = Some ex_model"
      by (simp add: loaded_service_def)
    obtain t w3 where r: "tid t = 4" "live w3 = {2, 4}" "next_id w3 = 5"
      "\<forall>prediction w4. predict loaded_service t (called Predict w3) = (Inr prediction, w4) \<longrightarrow>
         status (fst (classifyImage ex_library ex_clock loaded_service ex_request started_world)) = 200
         \<and> snd (classifyImage ex_library ex_clock loaded_service ex_request started_world)
             = dispose t w4"
      using ex_run_to_predict [OF m] by auto
    let ?w4 = "snd (predict loaded_service t (called Predict w3))"
    have out: "ex_model t = Inr ([1, 10], ex_probabilities)"
      by (simp add: ex_model_def)
    obtain res where "fst (predict loaded_service t (called Predict w3)) = Inr res"
      using predict_loaded [OF m out ex_index, of "called Predict w3"]
      by (simp add: ex_probabilities_def)
    then have "predict loaded_service t (called Predict w3) = (Inr res, ?w4)"
      by (simp add: prod_eq_iff)
    then have run: "status (fst (classifyImage ex_library ex_clock loaded_service ex_request started_world)) = 200"
      "snd (classifyImage ex_library ex_clock loaded_service ex_request started_world)
             = dispose t ?w4"
      using r(4) by blast+
    have "live ?w4 = {2, 4}"
      using predict_keeps_live [OF fresh(1) [OF r(2,3)]] fresh(2) [OF r(2,3)] by simp
    then have "live (dispose t ?w4) = {2}"
      using r(1) by (auto simp: dispose_def)
    then show ?thesis
      using run by simp
  qed
  show ?thesis
    using first second third by simp
qed

end
